theory Spec2Isabelle
  imports Complex_Main "HOL-Library.Char_ord" "HOL-Library.List_Lexorder" "HOL-Library.Monad_Syntax"
begin

section \<open>Python values and errors\<close>

text \<open>
  The pipeline is Python on top of NumPy and SciPy. Exceptions are values of
  \<open>py_error\<close>; a function that can raise returns \<open>py_error + 'a\<close> with \<open>Inl\<close> the
  exception. A naive \<open>datetime\<close> with whole seconds is the number of seconds it lies
  after 0001-01-01T00:00:00 (an \<open>int\<close>): comparing two datetimes compares these
  numbers and \<open>(a - b).total_seconds()\<close> is their difference. Python floats are
  modelled by real numbers (no rounding, no overflow); the non-finite floats NaN and
  the infinities appear explicitly where the code can produce or receive them.
\<close>


datatype py_error = IndexError | KeyError string | ZeroDivisionError | ValueError | FileNotFoundError

section \<open>AngleTimeSeries: interpolation (utils/correction.py)\<close>

text \<open>
  \<open>bisect.bisect_left(a, x)\<close> of the standard library, as CPython writes it:
  \<^verbatim>\<open>lo, hi = 0, len(a)
  while lo < hi:
      mid = (lo + hi) // 2
      if a[mid] < x: lo = mid + 1
      else: hi = mid
  return lo\<close>
\<close>

function bisect_left_loop :: "int list \<Rightarrow> int \<Rightarrow> nat \<Rightarrow> nat \<Rightarrow> nat" where
  "bisect_left_loop a x lo hi =
     (if lo < hi then
        (let mid = (lo + hi) div 2 in
         if a ! mid < x then bisect_left_loop a x (mid + 1) hi
         else bisect_left_loop a x lo mid)
      else lo)"
  by pat_completeness auto
termination
  by (relation "measure (\<lambda>(a, x, lo, hi). hi - lo)") auto

declare bisect_left_loop.simps [simp del]

definition bisect_left :: "int list \<Rightarrow> int \<Rightarrow> nat" where
  "bisect_left a x = bisect_left_loop a x 0 (length a)"

text \<open>
  \<open>interp_angle(image_time, times, values)\<close>. The series is the pair of parallel
  lists the parsers return. \<open>values[0]\<close> and \<open>values[-1]\<close> raise \<open>IndexError\<close> on an
  empty list, \<open>values[idx]\<close> raises it when \<open>values\<close> is shorter than \<open>times\<close>, and the
  float division raises \<open>ZeroDivisionError\<close> when the two bracketing timestamps
  coincide.
\<close>

definition interp_angle :: "int \<Rightarrow> int list \<Rightarrow> real list \<Rightarrow> py_error + real" where
  "interp_angle image_time ts vals =
     (let idx = bisect_left ts image_time in
      if idx = 0 then
        (if vals = [] then Inl IndexError else Inr (vals ! 0))
      else if idx \<ge> length ts then
        (if vals = [] then Inl IndexError else Inr (last vals))
      else if idx \<ge> length vals then Inl IndexError
      else
        (let t0 = ts ! (idx - 1); t1 = ts ! idx;
             v0 = vals ! (idx - 1); v1 = vals ! idx in
         if t1 - t0 = 0 then Inl ZeroDivisionError
         else
           (let frac = real_of_int (image_time - t0) / real_of_int (t1 - t0) in
            Inr (v0 + frac * (v1 - v0)))))"

lemma bisect_left_loop_spec:
  assumes "sorted a" "lo \<le> hi" "hi \<le> length a"
    "\<forall>i<lo. a ! i < x" "\<forall>i. hi \<le> i \<and> i < length a \<longrightarrow> x \<le> a ! i"
  shows "lo \<le> bisect_left_loop a x lo hi \<and> bisect_left_loop a x lo hi \<le> hi \<and>
         (\<forall>i<bisect_left_loop a x lo hi. a ! i < x) \<and>
         (\<forall>i. bisect_left_loop a x lo hi \<le> i \<and> i < length a \<longrightarrow> x \<le> a ! i)"
  using assms
proof (induction a x lo hi rule: bisect_left_loop.induct)
  case (1 a x lo hi)
  show ?case
  proof (cases "lo < hi")
    case False
    then have "bisect_left_loop a x lo hi = lo"
      by (simp add: bisect_left_loop.simps [of a x lo hi])
    with False "1.prems" show ?thesis by auto
  next
    case True
    define mid where "mid = (lo + hi) div 2"
    have mid: "lo \<le> mid" "mid < hi" using True by (auto simp: mid_def)
    show ?thesis
    proof (cases "a ! mid < x")
      case lt: True
      have below: "\<forall>i<mid + 1. a ! i < x"
      proof (intro allI impI)
        fix i assume "i < mid + 1"
        then have "i \<le> mid" by simp
        then have "a ! i \<le> a ! mid"
          using \<open>sorted a\<close> mid "1.prems"(3) by (auto simp: sorted_iff_nth_mono)
        then show "a ! i < x" using lt by simp
      qed
      have eq: "bisect_left_loop a x lo hi = bisect_left_loop a x (mid + 1) hi"
        using True lt by (simp add: bisect_left_loop.simps [of a x lo hi] mid_def Let_def)
      have IH: "mid + 1 \<le> bisect_left_loop a x (mid + 1) hi \<and>
            bisect_left_loop a x (mid + 1) hi \<le> hi \<and>
            (\<forall>i<bisect_left_loop a x (mid + 1) hi. a ! i < x) \<and>
            (\<forall>i. bisect_left_loop a x (mid + 1) hi \<le> i \<and> i < length a \<longrightarrow> x \<le> a ! i)"
        using "1.IH"(1) [OF True mid_def lt] "1.prems" mid below by simp
      then show ?thesis using eq mid by auto
    next
      case ge: False
      have above: "\<forall>i. mid \<le> i \<and> i < length a \<longrightarrow> x \<le> a ! i"
      proof (intro allI impI)
        fix i assume "mid \<le> i \<and> i < length a"
        then have "a ! mid \<le> a ! i"
          using \<open>sorted a\<close> by (auto simp: sorted_iff_nth_mono)
        then show "x \<le> a ! i" using ge by simp
      qed
      have eq: "bisect_left_loop a x lo hi = bisect_left_loop a x lo mid"
        using True ge by (simp add: bisect_left_loop.simps [of a x lo hi] mid_def Let_def)
      have IH: "lo \<le> bisect_left_loop a x lo mid \<and>
            bisect_left_loop a x lo mid \<le> mid \<and>
            (\<forall>i<bisect_left_loop a x lo mid. a ! i < x) \<and>
            (\<forall>i. bisect_left_loop a x lo mid \<le> i \<and> i < length a \<longrightarrow> x \<le> a ! i)"
        using "1.IH"(2) [OF True mid_def ge] "1.prems" mid above by simp
      then show ?thesis using eq mid by auto
    qed
  qed
qed

lemma bisect_left_spec:
  assumes "sorted a"
  shows "bisect_left a x \<le> length a"
    and "\<forall>i<bisect_left a x. a ! i < x"
    and "\<forall>i. bisect_left a x \<le> i \<and> i < length a \<longrightarrow> x \<le> a ! i"
  using bisect_left_loop_spec [of a 0 "length a" x] assms
  by (simp_all add: bisect_left_def)


lemma bisect_left_zero_iff:
  assumes "sorted a" "a \<noteq> []"
  shows "bisect_left a x = 0 \<longleftrightarrow> x \<le> hd a"
proof
  assume "bisect_left a x = 0"
  then have "x \<le> a ! 0" using bisect_left_spec(3) [OF assms(1), of x] assms(2) by auto
  then show "x \<le> hd a" using assms(2) by (simp add: hd_conv_nth)
next
  assume le: "x \<le> hd a"
  show "bisect_left a x = 0"
  proof (rule ccontr)
    assume "bisect_left a x \<noteq> 0"
    then have "a ! 0 < x" using bisect_left_spec(2) [OF assms(1), of x] by auto
    then show False using le assms(2) by (simp add: hd_conv_nth)
  qed
qed

lemma bisect_left_end_iff:
  assumes "sorted a" "a \<noteq> []"
  shows "bisect_left a x \<ge> length a \<longleftrightarrow> last a < x"
proof
  assume "bisect_left a x \<ge> length a"
  then have "length a - 1 < bisect_left a x" using assms(2) by (cases a) auto
  then have "a ! (length a - 1) < x" using bisect_left_spec(2) [OF assms(1), of x] by blast
  then show "last a < x" using assms(2) by (simp add: last_conv_nth)
next
  assume lt: "last a < x"
  show "bisect_left a x \<ge> length a"
  proof (rule ccontr)
    assume "\<not> length a \<le> bisect_left a x"
    then have "bisect_left a x \<le> length a - 1 \<and> length a - 1 < length a" by auto
    then have "x \<le> a ! (length a - 1)" using bisect_left_spec(3) [OF assms(1), of x] by blast
    then show False using lt assms(2) by (simp add: last_conv_nth)
  qed
qed

lemma bisect_left_bracket:
  assumes "sorted a" "0 < bisect_left a x" "bisect_left a x < length a"
  shows "a ! (bisect_left a x - 1) < x \<and> x \<le> a ! bisect_left a x"
  using bisect_left_spec(2,3) [OF assms(1), of x] assms(2,3)
  by (metis One_nat_def Suc_pred le_refl lessI)

lemma interp_angle_interior:
  assumes "sorted ts" "length vals = length ts"
    "0 < bisect_left ts q" "bisect_left ts q < length ts"
  shows "interp_angle q ts vals =
           Inr (vals ! (bisect_left ts q - 1) +
                real_of_int (q - ts ! (bisect_left ts q - 1)) /
                  real_of_int (ts ! bisect_left ts q - ts ! (bisect_left ts q - 1)) *
                (vals ! bisect_left ts q - vals ! (bisect_left ts q - 1)))"
  using bisect_left_bracket [OF assms(1,3,4)] assms(2,3,4)
  by (simp add: interp_angle_def Let_def)

text \<open>
  Claim C2. For a non-empty series sorted ascending by timestamp, \<open>interp_angle\<close>
  returns the first value for a query at or before the first timestamp, the last
  value for a query after the last timestamp, and otherwise the linear interpolation
  \<open>v0 + (v1 - v0) * (q - t0) / (t1 - t0)\<close> over the bracketing pair
  \<open>t0 < q \<le> t1\<close>. For samples at \<open>t = [0, 10]\<close> with values \<open>[v0, v10]\<close>:
  \<open>interpolate(5) = (v0 + v10) / 2\<close>, \<open>interpolate(-1) = v0\<close>, \<open>interpolate(11) = v10\<close>.
\<close>

theorem interp_angle_piecewise:
  assumes "ts \<noteq> []" "sorted ts" "length vals = length ts"
  shows "(q \<le> hd ts \<longrightarrow> interp_angle q ts vals = Inr (hd vals)) \<and>
         (last ts < q \<longrightarrow> interp_angle q ts vals = Inr (last vals)) \<and>
         (hd ts < q \<and> q \<le> last ts \<longrightarrow>
            (\<exists>i. 0 < i \<and> i < length ts \<and> ts ! (i - 1) < q \<and> q \<le> ts ! i \<and>
               interp_angle q ts vals =
                 Inr (vals ! (i - 1) + (vals ! i - vals ! (i - 1)) *
                        real_of_int (q - ts ! (i - 1)) / real_of_int (ts ! i - ts ! (i - 1))))) \<and>
         interp_angle 5 [0, 10] [v0, v10] = Inr ((v0 + v10) / 2) \<and>
         interp_angle (- 1) [0, 10] [v0, v10] = Inr v0 \<and>
         interp_angle 11 [0, 10] [v0, v10] = Inr v10"
proof (intro conjI impI)
  have ne: "vals \<noteq> []" using assms(1,3) by auto
  { assume "q \<le> hd ts"
    then have "bisect_left ts q = 0" using bisect_left_zero_iff [OF assms(2,1)] by simp
    then show "interp_angle q ts vals = Inr (hd vals)"
      using ne by (simp add: interp_angle_def hd_conv_nth) }
  { assume "last ts < q"
    then have ge: "bisect_left ts q \<ge> length ts"
      using bisect_left_end_iff [OF assms(2,1)] by simp
    then have "bisect_left ts q \<noteq> 0" using assms(1) by (cases ts) auto
    then show "interp_angle q ts vals = Inr (last vals)"
      using ne ge by (simp add: interp_angle_def) }
  { assume "hd ts < q \<and> q \<le> last ts"
    then have pos: "0 < bisect_left ts q" and lt: "bisect_left ts q < length ts"
      using bisect_left_zero_iff [OF assms(2,1), of q] bisect_left_end_iff [OF assms(2,1), of q]
      by auto
    show "\<exists>i. 0 < i \<and> i < length ts \<and> ts ! (i - 1) < q \<and> q \<le> ts ! i \<and>
               interp_angle q ts vals =
                 Inr (vals ! (i - 1) + (vals ! i - vals ! (i - 1)) *
                        real_of_int (q - ts ! (i - 1)) / real_of_int (ts ! i - ts ! (i - 1)))"
      using pos lt bisect_left_bracket [OF assms(2) pos lt]
        interp_angle_interior [OF assms(2,3) pos lt]
      by (intro exI [of _ "bisect_left ts q"]) (simp add: mult.commute) }
  have s: "sorted [0, 10 :: int]" by simp
  have b5: "bisect_left [0, 10] 5 = 1"
    using bisect_left_zero_iff [OF s, of 5] bisect_left_end_iff [OF s, of 5] by simp
  show "interp_angle 5 [0, 10] [v0, v10] = Inr ((v0 + v10) / 2)"
    by (simp add: interp_angle_def b5 field_simps)
  have b0: "bisect_left [0, 10] (- 1) = 0"
    using bisect_left_zero_iff [OF s, of "- 1"] by simp
  show "interp_angle (- 1) [0, 10] [v0, v10] = Inr v0"
    by (simp add: interp_angle_def b0)
  have b11: "bisect_left [0, 10] 11 = 2"
    using bisect_left_zero_iff [OF s, of 11] bisect_left_end_iff [OF s, of 11]
      bisect_left_spec(1) [OF s, of 11] by simp
  show "interp_angle 11 [0, 10] [v0, v10] = Inr v10"
    by (simp add: interp_angle_def b11)
qed

theorem interp_angle_piecewise_witness:
  "[0, 10, 20 :: int] \<noteq> [] \<and> sorted [0, 10, 20 :: int] \<and>
   length [1, 3, 7 :: real] = length [0, 10, 20 :: int] \<and>
   interp_angle (- 3) [0, 10, 20] [1, 3, 7] = Inr 1 \<and>
   interp_angle 25 [0, 10, 20] [1, 3, 7] = Inr 7 \<and>
   interp_angle 15 [0, 10, 20] [1, 3, 7] = Inr 5"
proof -
  have h: "[0, 10, 20 :: int] \<noteq> []" "sorted [0, 10, 20 :: int]"
    "length [1, 3, 7 :: real] = length [0, 10, 20 :: int]" by simp_all
  have a: "interp_angle (- 3) [0, 10, 20] [1, 3, 7] = Inr 1"
    using interp_angle_piecewise [OF h, of "- 3"] by simp
  have b: "interp_angle 25 [0, 10, 20] [1, 3, 7] = Inr 7"
    using interp_angle_piecewise [OF h, of 25] by simp
  obtain i where i: "0 < i" "i < 3" "[0, 10, 20 :: int] ! (i - 1) < 15" "15 \<le> [0, 10, 20 :: int] ! i"
    and r: "interp_angle 15 [0, 10, 20] [1, 3, 7] =
        Inr ([1, 3, 7] ! (i - 1) + ([1, 3, 7] ! i - [1, 3, 7] ! (i - 1)) *
          real_of_int (15 - [0, 10, 20] ! (i - 1)) / real_of_int ([0, 10, 20] ! i - [0, 10, 20] ! (i - 1)))"
  proof -
    have "hd [0, 10, 20 :: int] < 15 \<and> 15 \<le> last [0, 10, 20 :: int]" by simp
    then have "\<exists>i. 0 < i \<and> i < length [0, 10, 20 :: int] \<and> [0, 10, 20 :: int] ! (i - 1) < 15 \<and>
        15 \<le> [0, 10, 20 :: int] ! i \<and>
        interp_angle 15 [0, 10, 20] [1, 3, 7] =
        Inr ([1, 3, 7] ! (i - 1) + ([1, 3, 7] ! i - [1, 3, 7] ! (i - 1)) *
          real_of_int (15 - [0, 10, 20] ! (i - 1)) / real_of_int ([0, 10, 20] ! i - [0, 10, 20] ! (i - 1)))"
      using interp_angle_piecewise [OF h, of 15] by blast
    then show ?thesis using that by auto
  qed
  have "i = 1 \<or> i = 2" using i(1,2) by auto
  then have "i = 2" using i(3,4) by auto
  then have c: "interp_angle 15 [0, 10, 20] [1, 3, 7] = Inr 5" using r by simp
  show ?thesis using h a b c by simp
qed

text \<open>
  Claim C10. For a non-empty series whose timestamps are non-decreasing (duplicates
  allowed) and any query time, \<open>interp_angle\<close> returns a value and never divides by
  zero: in the interior branch \<open>bisect_left\<close> gives \<open>t0 < q \<le> t1\<close>, so \<open>t1 - t0\<close> is
  strictly positive.
\<close>

theorem interp_angle_total:
  assumes "ts \<noteq> []" "sorted ts" "length vals = length ts"
  shows "(\<exists>v. interp_angle q ts vals = Inr v) \<and>
         interp_angle q ts vals \<noteq> Inl ZeroDivisionError \<and>
         (0 < bisect_left ts q \<and> bisect_left ts q < length ts \<longrightarrow>
            ts ! (bisect_left ts q - 1) < q \<and> q \<le> ts ! bisect_left ts q \<and>
            0 < ts ! bisect_left ts q - ts ! (bisect_left ts q - 1))"
proof -
  have ne: "vals \<noteq> []" using assms(1,3) by auto
  have br: "0 < bisect_left ts q \<and> bisect_left ts q < length ts \<longrightarrow>
            ts ! (bisect_left ts q - 1) < q \<and> q \<le> ts ! bisect_left ts q \<and>
            0 < ts ! bisect_left ts q - ts ! (bisect_left ts q - 1)"
    using bisect_left_bracket [OF assms(2), of q] by auto
  have ex: "\<exists>v. interp_angle q ts vals = Inr v"
  proof (cases "0 < bisect_left ts q \<and> bisect_left ts q < length ts")
    case True
    then show ?thesis using interp_angle_interior [OF assms(2,3), of q] by blast
  next
    case False
    then show ?thesis using ne by (auto simp: interp_angle_def Let_def)
  qed
  then have "interp_angle q ts vals \<noteq> Inl ZeroDivisionError" by auto
  with ex br show ?thesis by blast
qed

theorem interp_angle_total_witness:
  "[0, 10, 10, 20 :: int] \<noteq> [] \<and> sorted [0, 10, 10, 20 :: int] \<and>
   length [1, 3, 4, 7 :: real] = length [0, 10, 10, 20 :: int] \<and>
   interp_angle 10 [0, 10, 10, 20] [1, 3, 4, 7] \<noteq> Inl ZeroDivisionError \<and>
   interp_angle 12 [0, 10, 10, 20] [1, 3, 4, 7] \<noteq> Inl ZeroDivisionError"
proof -
  have h: "[0, 10, 10, 20 :: int] \<noteq> []" "sorted [0, 10, 10, 20 :: int]"
    "length [1, 3, 4, 7 :: real] = length [0, 10, 10, 20 :: int]" by simp_all
  show ?thesis
    using h interp_angle_total [OF h, of 10] interp_angle_total [OF h, of 12] by simp
qed




section \<open>AngleTimeSeries: building the series (utils/correction.py)\<close>

subsection \<open>The string and date functions of Python the parsers call\<close>

text \<open>
  Text is ASCII here: \<open>str.strip\<close> and \<open>str.split\<close> take the ASCII whitespace
  characters of \<open>str.isspace\<close>, \<open>int\<close> reads an optional sign and decimal digits that single underscores
  may separate, \<open>str\<close> of an integer is its decimal numeral, and \<open>s[a:b]\<close> clamps to
  the string. \<open>datetime(y, m, d, H, M, S)\<close> raises \<open>ValueError\<close> outside its ranges
  (here \<open>None\<close>); its value is the second count from 0001-01-01, by the ordinal
  arithmetic of the \<open>datetime\<close> module.
\<close>

definition is_space :: "char \<Rightarrow> bool" where
  "is_space c = (c \<in> set [CHR 0x09, CHR 0x0A, CHR 0x0B, CHR 0x0C, CHR 0x0D,
                            CHR 0x1C, CHR 0x1D, CHR 0x1E, CHR 0x1F, CHR '' ''])"

definition strip_with :: "(char \<Rightarrow> bool) \<Rightarrow> string \<Rightarrow> string" where
  "strip_with sp s = rev (dropWhile sp (rev (dropWhile sp s)))"

definition strip :: "string \<Rightarrow> string" where
  "strip s = strip_with is_space s"

text \<open>
  \<open>int\<close> and \<open>float\<close> skip surrounding whitespace themselves, but only the six
  characters of C's \<open>isspace\<close>: \<open>int('\\x1c5')\<close> raises although \<open>'\\x1c5'.strip()\<close>
  is \<open>'5'\<close>.
\<close>

definition is_c_space :: "char \<Rightarrow> bool" where
  "is_c_space c = (c \<in> set [CHR 0x09, CHR 0x0A, CHR 0x0B, CHR 0x0C, CHR 0x0D, CHR '' ''])"

definition startswith :: "string \<Rightarrow> string \<Rightarrow> bool" where
  "startswith s p = (take (length p) s = p)"

definition slice :: "string \<Rightarrow> nat \<Rightarrow> nat \<Rightarrow> string" where
  "slice s a b = take (b - a) (drop a s)"

definition last_chars :: "nat \<Rightarrow> string \<Rightarrow> string" where
  "last_chars k s = drop (length s - k) s"

fun split_acc :: "string \<Rightarrow> string \<Rightarrow> string list" where
  "split_acc cur [] = (if cur = [] then [] else [cur])"
| "split_acc cur (c # cs) =
     (if is_space c then (if cur = [] then split_acc [] cs else cur # split_acc [] cs)
      else split_acc (cur @ [c]) cs)"

definition py_split :: "string \<Rightarrow> string list" where
  "py_split s = split_acc [] s"

definition is_digit :: "char \<Rightarrow> bool" where
  "is_digit c = (CHR ''0'' \<le> c \<and> c \<le> CHR ''9'')"

definition digit_val :: "char \<Rightarrow> int" where
  "digit_val c = int (of_char c) - 48"

fun digits_val :: "int \<Rightarrow> string \<Rightarrow> int option" where
  "digits_val acc [] = Some acc"
| "digits_val acc [c] = (if is_digit c then Some (10 * acc + digit_val c) else None)"
| "digits_val acc (c # d # cs) =
     (if is_digit c then digits_val (10 * acc + digit_val c) (d # cs)
      else if c = CHR ''_'' \<and> is_digit d then digits_val (10 * acc + digit_val d) cs
      else None)"

definition py_int :: "string \<Rightarrow> int option" where
  "py_int s =
     (case strip_with is_c_space s of
        [] \<Rightarrow> None
      | c # cs \<Rightarrow>
          (let neg = (c = CHR ''-'');
               ds = (if c = CHR ''-'' \<or> c = CHR ''+'' then cs else c # cs)
           in case ds of
                [] \<Rightarrow> None
              | d # ds' \<Rightarrow>
                  if is_digit d
                  then map_option (\<lambda>n. if neg then - n else n) (digits_val (digit_val d) ds')
                  else None))"

function str_nat :: "nat \<Rightarrow> string" where
  "str_nat n = (if n < 10 then [char_of (48 + n)] else str_nat (n div 10) @ [char_of (48 + n mod 10)])"
  by pat_completeness auto
termination
  by (relation "measure id") auto

declare str_nat.simps [simp del]

definition py_str :: "int \<Rightarrow> string" where
  "py_str n = (if n < 0 then CHR ''-'' # str_nat (nat (- n)) else str_nat (nat n))"

definition is_leap :: "int \<Rightarrow> bool" where
  "is_leap year = (year mod 4 = 0 \<and> (year mod 100 \<noteq> 0 \<or> year mod 400 = 0))"

definition DAYS_IN_MONTH :: "int list" where
  "DAYS_IN_MONTH = [31, 28, 31, 30, 31, 30, 31, 31, 30, 31, 30, 31]"

definition days_in_month :: "int \<Rightarrow> int \<Rightarrow> int" where
  "days_in_month year month =
     (if month = 2 \<and> is_leap year then 29 else DAYS_IN_MONTH ! nat (month - 1))"

definition days_before_month :: "int \<Rightarrow> int \<Rightarrow> int" where
  "days_before_month year month =
     sum_list (take (nat (month - 1)) DAYS_IN_MONTH) + (if month > 2 \<and> is_leap year then 1 else 0)"

definition days_before_year :: "int \<Rightarrow> int" where
  "days_before_year year = (let y = year - 1 in y * 365 + y div 4 - y div 100 + y div 400)"

definition datetime :: "int \<Rightarrow> int \<Rightarrow> int \<Rightarrow> int \<Rightarrow> int \<Rightarrow> int \<Rightarrow> int option" where
  "datetime year month day hour minute second =
     (if 1 \<le> year \<and> year \<le> 9999 \<and> 1 \<le> month \<and> month \<le> 12 \<and>
         1 \<le> day \<and> day \<le> days_in_month year month \<and>
         0 \<le> hour \<and> hour \<le> 23 \<and> 0 \<le> minute \<and> minute \<le> 59 \<and>
         0 \<le> second \<and> second \<le> 59
      then Some ((days_before_year year + days_before_month year month + day - 1) * 86400
                 + hour * 3600 + minute * 60 + second)
      else None)"

subsection \<open>parse\_spm and parse\_oat\<close>

text \<open>
  The body of the \<open>try\<close> block of both parsers starts with the same timestamp
  fields; any exception in it skips the line (\<open>except: continue\<close>), so the body is
  a computation in \<open>option\<close>. \<open>float\<close> is Python's: which tokens it accepts and the
  float it returns are a parameter \<open>py_float\<close> of the parsers.
\<close>

definition record_time :: "string \<Rightarrow> int option" where
  "record_time line =
     do {
       n \<leftarrow> py_int (strip (slice line 14 22));
       y \<leftarrow> py_int (last_chars 4 (py_str n));
       month \<leftarrow> py_int (strip (slice line 22 26));
       day \<leftarrow> py_int (strip (slice line 26 30));
       hour \<leftarrow> py_int (strip (slice line 30 34));
       minute \<leftarrow> py_int (strip (slice line 34 38));
       second \<leftarrow> py_int (strip (slice line 38 42));
       datetime (2000 + y) month day hour minute second
     }"

definition spm_record :: "(string \<Rightarrow> 'v option) \<Rightarrow> string \<Rightarrow> (int \<times> 'v) option" where
  "spm_record py_float line =
     do {
       dt \<leftarrow> record_time line;
       sun_el \<leftarrow> (case py_split (strip line) of [] \<Rightarrow> None | ws \<Rightarrow> py_float (last ws));
       Some (dt, sun_el)
     }"

definition oat_record :: "(string \<Rightarrow> 'v option) \<Rightarrow> string \<Rightarrow> (int \<times> 'v) option" where
  "oat_record py_float line =
     do {
       dt \<leftarrow> record_time line;
       emis_angle \<leftarrow> py_float (strip (slice line 233 242));
       Some (dt, emis_angle)
     }"

text \<open>
  The loop over the lines of the file, with the two lists it appends to. Both appends
  happen after every field has been read, so a line adds to both lists or to none.
\<close>

fun parse_loop :: "(string \<Rightarrow> (int \<times> 'v) option) \<Rightarrow> string list \<Rightarrow> int list \<times> 'v list \<Rightarrow> int list \<times> 'v list" where
  "parse_loop rec [] (ts, vals) = (ts, vals)"
| "parse_loop rec (line # rest) (ts, vals) =
     (if \<not> startswith line ''ORBTATTD'' then parse_loop rec rest (ts, vals)
      else (case rec line of
              None \<Rightarrow> parse_loop rec rest (ts, vals)
            | Some (dt, v) \<Rightarrow> parse_loop rec rest (ts @ [dt], vals @ [v])))"

definition parse_spm :: "(string \<Rightarrow> 'v option) \<Rightarrow> string list \<Rightarrow> int list \<times> 'v list" where
  "parse_spm py_float lines = parse_loop (spm_record py_float) lines ([], [])"

definition parse_oat :: "(string \<Rightarrow> 'v option) \<Rightarrow> string list \<Rightarrow> int list \<times> 'v list" where
  "parse_oat py_float lines = parse_loop (oat_record py_float) lines ([], [])"


text \<open>
  A stand-in for \<open>float\<close> on plain decimal literals (sign, digits, optional
  fraction), enough to run the parsers on concrete lines. Python accepts more
  (exponents, \<open>inf\<close>, \<open>nan\<close>, underscores); no general theorem below depends on it.
\<close>

definition digits_nat :: "string \<Rightarrow> int" where
  "digits_nat ds = foldl (\<lambda>acc c. 10 * acc + digit_val c) 0 ds"

definition float_plain :: "string \<Rightarrow> real option" where
  "float_plain s =
     (let t = strip_with is_c_space s;
          neg = (t \<noteq> [] \<and> hd t = CHR ''-'');
          body = (if t \<noteq> [] \<and> (hd t = CHR ''-'' \<or> hd t = CHR ''+'') then tl t else t);
          ip = takeWhile is_digit body;
          rest = dropWhile is_digit body;
          fp = (if rest \<noteq> [] \<and> hd rest = CHR ''.'' then tl rest else []);
          x = real_of_int (digits_nat ip) + real_of_int (digits_nat fp) / 10 ^ length fp
      in if (ip \<noteq> [] \<or> fp \<noteq> []) \<and> list_all is_digit fp \<and>
            (rest = [] \<or> hd rest = CHR ''.'')
         then Some (if neg then - x else x) else None)"

text \<open>
  The sample a line yields: none for a line that does not start with \<open>ORBTATTD\<close> or
  whose fields do not parse.
\<close>

definition sample_of :: "(string \<Rightarrow> (int \<times> 'v) option) \<Rightarrow> string \<Rightarrow> (int \<times> 'v) option" where
  "sample_of rec line = (if startswith line ''ORBTATTD'' then rec line else None)"

lemma parse_loop_map_filter:
  "parse_loop rec lines (ts, vals) =
     (ts @ map fst (List.map_filter (sample_of rec) lines),
      vals @ map snd (List.map_filter (sample_of rec) lines))"
  by (induction lines arbitrary: ts vals)
     (auto simp: List.map_filter_simps sample_of_def split: option.splits)

text \<open>
  What the parsers do build: for every list of lines, the series of \<open>parse_spm\<close> and
  of \<open>parse_oat\<close> holds exactly the samples of the valid lines, malformed lines
  silently left out, in the order of the lines in the file, times and values in step.
\<close>

lemma parse_keeps_valid_in_file_order:
  "parse_spm py_float lines =
     (map fst (List.map_filter (sample_of (spm_record py_float)) lines),
      map snd (List.map_filter (sample_of (spm_record py_float)) lines)) \<and>
   parse_oat py_float lines =
     (map fst (List.map_filter (sample_of (oat_record py_float)) lines),
      map snd (List.map_filter (sample_of (oat_record py_float)) lines)) \<and>
   length (fst (parse_spm py_float lines)) = length (snd (parse_spm py_float lines)) \<and>
   length (fst (parse_oat py_float lines)) = length (snd (parse_oat py_float lines))"
  by (simp add: parse_spm_def parse_oat_def parse_loop_map_filter)

lemma parse_spm_skips_malformed:
  "parse_spm float_plain
     [''ORBTATTD            23   1   1   0   0  10  13.0'',
      ''# comment'',
      ''ORBTATTD            23  13   1   0   0  10  13.0'',
      ''ORBTATTD            23   1   2   0   0  10  12.5''] =
   ([63808128010, 63808214410], [13, 25 / 2])"
  by code_simp

text \<open>
  Claim C4. For every raw telemetry source (any ordering of lines, any mix of valid
  and malformed records) the series contains exactly the valid samples, and its
  samples are sorted ascending by timestamp. The first half holds
  (\<open>parse_keeps_valid_in_file_order\<close>). The second fails on the code: nothing sorts
  the lists, although \<open>interp_angle\<close>, their only consumer, bisects them. Two valid
  records in descending order of time are kept in file order; a query halfway between
  them then falls off the end of the unsorted list and gets the last value, 13, where
  the sorted series interpolates to 12.75. No exception is raised, so the fallback
  angles are not used either.
\<close>

theorem parse_spm_not_sorted:
  "parse_spm float_plain
     [''ORBTATTD            23   1   2   0   0  10  12.5'',
      ''ORBTATTD            23   1   1   0   0  10  13.0''] =
   ([63808214410, 63808128010], [25 / 2, 13]) \<and>
   \<not> sorted (fst (parse_spm float_plain
     [''ORBTATTD            23   1   2   0   0  10  12.5'',
      ''ORBTATTD            23   1   1   0   0  10  13.0''])) \<and>
   interp_angle 63808171210 [63808214410, 63808128010] [25 / 2, 13] = Inr 13 \<and>
   interp_angle 63808171210 [63808128010, 63808214410] [13, 25 / 2] = Inr (51 / 4)"
proof -
  have p: "parse_spm float_plain
     [''ORBTATTD            23   1   2   0   0  10  12.5'',
      ''ORBTATTD            23   1   1   0   0  10  13.0''] =
   ([63808214410, 63808128010], [25 / 2, 13])"
    by code_simp
  have b1: "bisect_left [63808214410, 63808128010] 63808171210 = 2"
    by (simp add: bisect_left_def bisect_left_loop.simps)
  have b2: "bisect_left [63808128010, 63808214410] 63808171210 = 1"
    by (simp add: bisect_left_def bisect_left_loop.simps)
  have i1: "interp_angle 63808171210 [63808214410, 63808128010] [25 / 2, 13] = Inr 13"
    by (simp add: interp_angle_def b1)
  have i2: "interp_angle 63808171210 [63808128010, 63808214410] [13, 25 / 2] = Inr (51 / 4)"
    by (simp add: interp_angle_def b2)
  from p i1 i2 show ?thesis by simp
qed

section \<open>AlbedoNormalizer (utils/albedo.py)\<close>

text \<open>
  A raster is the list of its rows. A pixel read from a file is an \<open>np_float\<close>: a
  finite number, an infinity or NaN. \<open>np.nan_to_num(arr, nan=0.0)\<close> maps NaN to 0 and
  the infinities to the largest and smallest finite float32; \<open>arr[arr < 0] = 0\<close>
  then clips the negatives.
\<close>

datatype np_float = Fin real | PosInf | NegInf | NaN

definition FLT_MAX :: real where
  "FLT_MAX = (2 - 1 / 2 ^ 23) * 2 ^ 127"

fun nan_to_num :: "np_float \<Rightarrow> real" where
  "nan_to_num (Fin x) = x"
| "nan_to_num NaN = 0"
| "nan_to_num PosInf = FLT_MAX"
| "nan_to_num NegInf = - FLT_MAX"

definition sanitize :: "np_float list list \<Rightarrow> real list list" where
  "sanitize arr = map (map (\<lambda>v. let x = nan_to_num v in if x < 0 then 0 else x)) arr"

text \<open>
  Float division and multiplication where one operand may be non-finite, by the
  IEEE rules NumPy follows (the sign of a zero is not modelled).
\<close>

fun fdiv :: "real \<Rightarrow> np_float \<Rightarrow> np_float" where
  "fdiv a (Fin b) =
     (if b \<noteq> 0 then Fin (a / b)
      else if a > 0 then PosInf else if a < 0 then NegInf else NaN)"
| "fdiv a PosInf = Fin 0"
| "fdiv a NegInf = Fin 0"
| "fdiv a NaN = NaN"

fun fmul :: "real \<Rightarrow> np_float \<Rightarrow> np_float" where
  "fmul x (Fin s) = Fin (x * s)"
| "fmul x PosInf = (if x > 0 then PosInf else if x < 0 then NegInf else NaN)"
| "fmul x NegInf = (if x > 0 then NegInf else if x < 0 then PosInf else NaN)"
| "fmul x NaN = NaN"

definition np_mean :: "real list list \<Rightarrow> np_float" where
  "np_mean a =
     (if concat a = [] then NaN
      else Fin (sum_list (concat a) / real (length (concat a))))"

text \<open>
  \<open>albedo_trend[albedo_trend < 1e-6] = 1e-6\<close>.
\<close>

definition floor_trend :: "real list list \<Rightarrow> real list list" where
  "floor_trend t = map (map (\<lambda>t. if t < 1 / 10 ^ 6 then 1 / 10 ^ 6 else t)) t"

text \<open>
  Lines 37 to 45 of \<open>normalize_and_visualize\<close>, the raster it writes: sanitize, blur, floor the trend,
  divide, rescale by \<open>0.1 / np.mean(arr_norm)\<close>. \<open>gaussian_filter\<close> is SciPy's, with
  \<open>sigma\<close> already applied: a parameter, of which the theorems ask only that it
  returns a raster of the shape of its input. NumPy divides by zero without raising
  (the quotient is an infinity or NaN, with a warning), so the scale is an
  \<open>np_float\<close>.
\<close>

definition normalize_and_visualize :: "(real list list \<Rightarrow> real list list) \<Rightarrow> np_float list list \<Rightarrow> np_float list list" where
  "normalize_and_visualize gaussian_filter raw =
     (let arr = sanitize raw;
          albedo_trend = floor_trend (gaussian_filter arr);
          arr_norm = map2 (map2 (/)) arr albedo_trend;
          scale = fdiv (1 / 10) (np_mean arr_norm)
      in map (map (\<lambda>x. fmul x scale)) arr_norm)"

text \<open>The global mean of a raster of finite values.\<close>

definition raster_mean :: "real list list \<Rightarrow> real" where
  "raster_mean a = sum_list (concat a) / real (length (concat a))"


lemma concat_map2_same_shape:
  "map length xs = map length ys \<Longrightarrow>
   concat (map2 (map2 f) xs ys) = map2 f (concat xs) (concat ys)"
proof (induction xs arbitrary: ys)
  case Nil
  then show ?case by simp
next
  case (Cons x xs)
  then obtain y ys' where ys: "ys = y # ys'" by (cases ys) auto
  with Cons.prems have len: "length x = length y" and rest: "map length xs = map length ys'"
    by auto
  show ?case using Cons.IH [OF rest] len by (simp add: ys)
qed

lemma length_concat_same_shape:
  "map length xs = map length ys \<Longrightarrow> length (concat xs) = length (concat ys)"
  by (simp add: length_concat)

lemma sum_list_pos_real:
  fixes xs :: "real list"
  assumes "\<forall>x\<in>set xs. 0 \<le> x" "y \<in> set xs" "0 < y"
  shows "0 < sum_list xs"
  using assms
proof (induction xs)
  case Nil
  then show ?case by simp
next
  case (Cons x xs)
  have nn: "0 \<le> sum_list xs" using Cons.prems(1) by (simp add: sum_list_nonneg)
  show ?case
  proof (cases "y = x")
    case True
    then show ?thesis using nn Cons.prems(3) by simp
  next
    case False
    then have "y \<in> set xs" using Cons.prems(2) by simp
    then have "0 < sum_list xs" using Cons.IH Cons.prems by simp
    moreover have "0 \<le> x" using Cons.prems(1) by simp
    ultimately show ?thesis by simp
  qed
qed

lemma sanitize_nonneg: "x \<in> set (concat (sanitize raw)) \<Longrightarrow> 0 \<le> x"
  by (auto simp: sanitize_def Let_def split: if_splits)

lemma floor_trend_pos: "x \<in> set (concat (floor_trend t)) \<Longrightarrow> 0 < x"
  by (auto simp: floor_trend_def split: if_splits)

lemma floor_trend_shape: "map length (floor_trend t) = map length t"
  by (simp add: floor_trend_def)

lemma normalize_unfold:
  "normalize_and_visualize gf raw =
     map (map (\<lambda>x. fmul x (fdiv (1 / 10)
       (np_mean (map2 (map2 (/)) (sanitize raw) (floor_trend (gf (sanitize raw))))))))
       (map2 (map2 (/)) (sanitize raw) (floor_trend (gf (sanitize raw))))"
  by (simp add: normalize_and_visualize_def Let_def)

lemma sum_list_map2_div_pos:
  fixes a t :: "real list"
  assumes "length a = length t" "\<forall>x\<in>set a. 0 \<le> x" "\<forall>x\<in>set t. 0 < x"
    "y \<in> set a" "y \<noteq> 0"
  shows "0 < sum_list (map2 (/) a t)"
proof -
  obtain i where i: "i < length a" "a ! i = y" using assms(4) by (auto simp: in_set_conv_nth)
  have ypos: "0 < y" using assms(2,4,5) by force
  have tpos: "0 < t ! i" using assms(1,3) i(1) by simp
  have mem: "y / (t ! i) \<in> set (map2 (/) a t)"
    using i assms(1) by (force simp: in_set_conv_nth)
  have nn: "\<forall>x\<in>set (map2 (/) a t). 0 \<le> x"
  proof
    fix x assume "x \<in> set (map2 (/) a t)"
    then obtain u v where "(u, v) \<in> set (zip a t)" "x = u / v" by auto
    then have "u \<in> set a" "v \<in> set t" by (auto dest: set_zip_leftD set_zip_rightD)
    then show "0 \<le> x" using assms(2,3) \<open>x = u / v\<close> by (simp add: less_imp_le)
  qed
  show ?thesis using sum_list_pos_real [OF nn mem] ypos tpos by simp
qed

text \<open>
  Claim C1. For every reflectance raster that is not all-zero after sanitization, the
  raster \<open>normalize_and_visualize\<close> writes has global mean 0.1 within a tolerance of 1e-4 (in
  exact arithmetic the mean is 0.1, and every value is finite).
\<close>

theorem normalize_mean_target:
  assumes shape: "map length (gaussian_filter (sanitize raw)) = map length (sanitize raw)"
    and nonzero: "\<exists>row\<in>set (sanitize raw). \<exists>x\<in>set row. x \<noteq> 0"
  shows "\<exists>out. normalize_and_visualize gaussian_filter raw = map (map Fin) out \<and>
           raster_mean out = 1 / 10 \<and> \<bar>raster_mean out - 1 / 10\<bar> \<le> 1 / 10 ^ 4"
proof -
  define a where "a = sanitize raw"
  define t where "t = floor_trend (gaussian_filter a)"
  define n where "n = map2 (map2 (/)) a t"
  have sh: "map length a = map length t"
    using shape by (simp add: a_def t_def floor_trend_shape)
  have flat: "concat n = map2 (/) (concat a) (concat t)"
    unfolding n_def by (rule concat_map2_same_shape [OF sh])
  have len: "length (concat a) = length (concat t)"
    by (rule length_concat_same_shape [OF sh])
  obtain y where y: "y \<in> set (concat a)" "y \<noteq> 0"
    using nonzero by (auto simp: a_def)
  have S: "0 < sum_list (concat n)"
    unfolding flat
    using sum_list_map2_div_pos [OF len _ _ y] sanitize_nonneg floor_trend_pos
    by (auto simp: a_def t_def)
  have ne: "concat n \<noteq> []"
  proof
    assume "concat n = []"
    then have "sum_list (concat n) = 0" by (simp only: sum_list.Nil)
    with S show False by simp
  qed
  define N where "N = real (length (concat n))"
  have Npos: "0 < N" using ne by (simp add: N_def)
  define m where "m = sum_list (concat n) / N"
  have mpos: "0 < m" using S Npos by (simp add: m_def)
  have mean: "np_mean n = Fin m" using ne by (simp add: np_mean_def m_def N_def)
  define c where "c = 1 / 10 / m"
  define out where "out = map (map (\<lambda>x. x * c)) n"
  have res: "normalize_and_visualize gaussian_filter raw = map (map Fin) out"
    using mpos by (simp add: normalize_unfold a_def [symmetric] t_def [symmetric]
        n_def [symmetric] mean out_def c_def comp_def)
  have cc: "concat out = map (\<lambda>x. x * c) (concat n)"
    by (simp add: out_def map_concat)
  have "sum_list (concat out) = sum_list (concat n) * c"
    unfolding cc using sum_list_mult_const [of "\<lambda>x. x" c "concat n"] by simp
  then have "raster_mean out = sum_list (concat n) * c / N"
    by (simp add: raster_mean_def cc N_def)
  also have "\<dots> = m * c" by (simp add: m_def)
  also have "\<dots> = 1 / 10" using mpos by (simp add: c_def)
  finally have "raster_mean out = 1 / 10" .
  with res show ?thesis by (intro exI [of _ out]) simp
qed

theorem normalize_mean_target_witness:
  "map length ((\<lambda>a. a) (sanitize [[Fin 1, Fin 3], [NaN, Fin (- 2)]])) =
     map length (sanitize [[Fin 1, Fin 3], [NaN, Fin (- 2)]]) \<and>
   (\<exists>row\<in>set (sanitize [[Fin 1, Fin 3], [NaN, Fin (- 2)]]). \<exists>x\<in>set row. x \<noteq> 0) \<and>
   normalize_and_visualize (\<lambda>a. a) [[Fin 1, Fin 3], [NaN, Fin (- 2)]] =
     map (map Fin) [[1 / 5, 1 / 5], [0, 0]] \<and>
   raster_mean [[1 / 5, 1 / 5], [0, 0]] = 1 / 10"
proof -
  have sh: "map length ((\<lambda>a. a) (sanitize [[Fin 1, Fin 3], [NaN, Fin (- 2)]])) =
     map length (sanitize [[Fin 1, Fin 3], [NaN, Fin (- 2)]])" by simp
  have nz: "\<exists>row\<in>set (sanitize [[Fin 1, Fin 3], [NaN, Fin (- 2)]]). \<exists>x\<in>set row. x \<noteq> 0"
    by (simp add: sanitize_def)
  have ev: "normalize_and_visualize (\<lambda>a. a) [[Fin 1, Fin 3], [NaN, Fin (- 2)]] =
     map (map Fin) [[1 / 5, 1 / 5], [0, 0]]"
    by (simp add: normalize_and_visualize_def sanitize_def floor_trend_def np_mean_def)
  obtain out where out: "normalize_and_visualize (\<lambda>a. a) [[Fin 1, Fin 3], [NaN, Fin (- 2)]] = map (map Fin) out"
    "raster_mean out = 1 / 10"
    using normalize_mean_target [of "\<lambda>a. a" "[[Fin 1, Fin 3], [NaN, Fin (- 2)]]"] sh nz by blast
  have "inj (map (map Fin))" by (intro inj_mapI) (simp add: inj_def)
  moreover have "map (map Fin) out = map (map Fin) [[1 / 5, 1 / 5], [0, 0]]"
    using out(1) ev by (simp only:)
  ultimately have "out = [[1 / 5, 1 / 5], [0, 0]]" by (rule injD)
  then show ?thesis using sh nz ev out(2) by simp
qed

text \<open>
  Claim C6 fails on the code at the all-zero raster. The blur of the all-zero raster
  is all-zero, the floored trend is 1e-6 everywhere, \<open>arr_norm\<close> is all-zero, its mean
  is 0, \<open>0.1 / 0\<close> is \<open>inf\<close> and \<open>0 * inf\<close> is NaN: every pixel written is NaN.
\<close>

theorem normalize_all_zero_is_nan:
  "normalize_and_visualize (\<lambda>a. a) [[Fin 0, Fin 0], [Fin 0, Fin 0]] = [[NaN, NaN], [NaN, NaN]]"
  by (simp add: normalize_and_visualize_def sanitize_def floor_trend_def np_mean_def)



section \<open>ShadowSegmenter (utils/shadow.py)\<close>

subsection \<open>Binary morphology of scipy.ndimage\<close>

text \<open>
  A mask is a list of rows of booleans. \<open>binary_opening\<close> and \<open>binary_closing\<close> are
  called with \<open>structure = generate_binary_structure(2, 2)\<close>, the full 3 by 3
  neighbourhood, and with SciPy's defaults otherwise: \<open>border_value = 0\<close>, no mask,
  origin 0. With \<open>border_value = 0\<close> a pixel outside the array reads as false, in
  erosion and in dilation alike. One erosion step keeps a pixel when all nine
  neighbours are true; one dilation step sets it when some neighbour is true.
\<close>

definition pixel :: "bool list list \<Rightarrow> int \<Rightarrow> int \<Rightarrow> bool" where
  "pixel m i j =
     (0 \<le> i \<and> i < int (length m) \<and> 0 \<le> j \<and> j < int (length (m ! nat i)) \<and>
      m ! nat i ! nat j)"

definition STRUCT :: "(int \<times> int) list" where
  "STRUCT = [(- 1, - 1), (- 1, 0), (- 1, 1), (0, - 1), (0, 0), (0, 1), (1, - 1), (1, 0), (1, 1)]"

definition erosion_step :: "bool list list \<Rightarrow> bool list list" where
  "erosion_step m =
     map (\<lambda>i. map (\<lambda>j. list_all (\<lambda>(di, dj). pixel m (int i + di) (int j + dj)) STRUCT)
                  [0..<length (m ! i)])
         [0..<length m]"

definition dilation_step :: "bool list list \<Rightarrow> bool list list" where
  "dilation_step m =
     map (\<lambda>i. map (\<lambda>j. list_ex (\<lambda>(di, dj). pixel m (int i + di) (int j + dj)) STRUCT)
                  [0..<length (m ! i)])
         [0..<length m]"

text \<open>
  The number of true pixels: \<open>mask.sum()\<close>, and the measure under which the
  repeat-until-stable loops below end.
\<close>

definition count_true :: "bool list list \<Rightarrow> nat" where
  "count_true m = sum_list (map (\<lambda>r. length (filter (\<lambda>b. b) r)) m)"

lemma row_count_mono:
  "length xs = length ys \<Longrightarrow> \<forall>j<length xs. xs ! j \<longrightarrow> ys ! j \<Longrightarrow>
   length (filter (\<lambda>b. b) xs) \<le> length (filter (\<lambda>b. b) ys) \<and>
   (xs \<noteq> ys \<longrightarrow> length (filter (\<lambda>b. b) xs) < length (filter (\<lambda>b. b) ys))"
proof (induction xs ys rule: list_induct2)
  case Nil
  then show ?case by simp
next
  case (Cons x xs y ys)
  have hd: "x \<longrightarrow> y" using Cons.prems [rule_format, of 0] by simp
  have tl: "\<forall>j<length xs. xs ! j \<longrightarrow> ys ! j"
  proof (intro allI impI)
    fix j assume "j < length xs" "xs ! j"
    then show "ys ! j" using Cons.prems [rule_format, of "Suc j"] by simp
  qed
  have IH: "length (filter (\<lambda>b. b) xs) \<le> length (filter (\<lambda>b. b) ys)"
    "xs \<noteq> ys \<Longrightarrow> length (filter (\<lambda>b. b) xs) < length (filter (\<lambda>b. b) ys)"
    using Cons.IH [OF tl] by simp_all
  show ?case
  proof (cases "xs = ys")
    case True
    then show ?thesis using hd by (cases x; cases y) simp_all
  next
    case False
    then show ?thesis using hd IH(2) by (cases x; cases y) simp_all
  qed
qed

lemma count_true_mono:
  "length m' = length m \<Longrightarrow>
   \<forall>i<length m. length (m' ! i) = length (m ! i) \<and> (\<forall>j<length (m ! i). m' ! i ! j \<longrightarrow> m ! i ! j) \<Longrightarrow>
   count_true m' \<le> count_true m \<and> (m' \<noteq> m \<longrightarrow> count_true m' < count_true m)"
proof (induction m' m rule: list_induct2)
  case Nil
  then show ?case by (simp add: count_true_def)
next
  case (Cons r' m' r m)
  have h0: "length r' = length r \<and> (\<forall>j<length r. r' ! j \<longrightarrow> r ! j)"
    using Cons.prems [rule_format, of 0] by simp
  then have h0': "length r' = length r" "\<forall>j<length r'. r' ! j \<longrightarrow> r ! j" by simp_all
  have tl: "\<forall>i<length m. length (m' ! i) = length (m ! i) \<and> (\<forall>j<length (m ! i). m' ! i ! j \<longrightarrow> m ! i ! j)"
  proof (intro allI impI)
    fix i assume "i < length m"
    then show "length (m' ! i) = length (m ! i) \<and> (\<forall>j<length (m ! i). m' ! i ! j \<longrightarrow> m ! i ! j)"
      using Cons.prems [rule_format, of "Suc i"] by simp
  qed
  have IH: "count_true m' \<le> count_true m" "m' \<noteq> m \<Longrightarrow> count_true m' < count_true m"
    using Cons.IH [OF tl] by simp_all
  have R: "length (filter (\<lambda>b. b) r') \<le> length (filter (\<lambda>b. b) r)"
    "r' \<noteq> r \<Longrightarrow> length (filter (\<lambda>b. b) r') < length (filter (\<lambda>b. b) r)"
    using row_count_mono [OF h0'] by simp_all
  have c: "count_true (r' # m') = length (filter (\<lambda>b. b) r') + count_true m'"
    "count_true (r # m) = length (filter (\<lambda>b. b) r) + count_true m"
    by (simp_all add: count_true_def)
  have le: "count_true (r' # m') \<le> count_true (r # m)"
    unfolding c using IH(1) R(1) by linarith
  have lt: "count_true (r' # m') < count_true (r # m)" if "r' # m' \<noteq> r # m"
  proof (cases "r' = r")
    case True
    with that have "m' \<noteq> m" by simp
    then show ?thesis unfolding c using IH(2) R(1) by linarith
  next
    case False
    then show ?thesis unfolding c using IH(1) R(2) by linarith
  qed
  from le lt show ?case by blast
qed

lemma erosion_step_shape:
  "length (erosion_step m) = length m"
  "i < length m \<Longrightarrow> length (erosion_step m ! i) = length (m ! i)"
  by (simp_all add: erosion_step_def)

lemma centre_in_STRUCT: "(0, 0) \<in> set STRUCT"
  by (simp add: STRUCT_def)

lemma erosion_step_le:
  assumes "i < length m" "j < length (m ! i)" "erosion_step m ! i ! j"
  shows "m ! i ! j"
proof -
  have "list_all (\<lambda>(di, dj). pixel m (int i + di) (int j + dj)) STRUCT"
    using assms by (simp add: erosion_step_def)
  then have "pixel m (int i + 0) (int j + 0)"
    using centre_in_STRUCT by (auto simp: list_all_iff)
  then show ?thesis by (simp add: pixel_def)
qed

lemma erosion_step_decreases:
  assumes "erosion_step m \<noteq> m"
  shows "count_true (erosion_step m) < count_true m"
proof -
  have "\<forall>i<length m. length (erosion_step m ! i) = length (m ! i) \<and>
          (\<forall>j<length (m ! i). erosion_step m ! i ! j \<longrightarrow> m ! i ! j)"
    using erosion_step_shape(2) erosion_step_le by blast
  then show ?thesis
    using count_true_mono [OF erosion_step_shape(1), of m] assms by blast
qed

lemma dilation_step_shape:
  "length (dilation_step m) = length m"
  "i < length m \<Longrightarrow> length (dilation_step m ! i) = length (m ! i)"
  by (simp_all add: dilation_step_def)

lemma dilation_step_ge:
  assumes "i < length m" "j < length (m ! i)" "m ! i ! j"
  shows "dilation_step m ! i ! j"
proof -
  have "pixel m (int i + 0) (int j + 0)" using assms by (simp add: pixel_def)
  then have "list_ex (\<lambda>(di, dj). pixel m (int i + di) (int j + dj)) STRUCT"
    using centre_in_STRUCT by (force simp: list_ex_iff)
  then show ?thesis using assms by (simp add: dilation_step_def)
qed

lemma dilation_step_decreases:
  assumes ne: "dilation_step m \<noteq> m"
  shows "count_true (map (map Not) (dilation_step m)) < count_true (map (map Not) m)"
proof -
  have "inj (map (map Not))" by (intro inj_mapI) (simp add: inj_def)
  then have ne': "map (map Not) (dilation_step m) \<noteq> map (map Not) m"
    using ne by (auto dest: injD)
  have len: "length (map (map Not) (dilation_step m)) = length (map (map Not) m)"
    by (simp add: dilation_step_shape)
  have pt: "\<forall>i<length (map (map Not) m).
      length (map (map Not) (dilation_step m) ! i) = length (map (map Not) m ! i) \<and>
      (\<forall>j<length (map (map Not) m ! i).
         map (map Not) (dilation_step m) ! i ! j \<longrightarrow> map (map Not) m ! i ! j)"
  proof (intro allI impI conjI)
    fix i assume i: "i < length (map (map Not) m)"
    then show "length (map (map Not) (dilation_step m) ! i) = length (map (map Not) m ! i)"
      by (simp add: dilation_step_shape)
    fix j assume j: "j < length (map (map Not) m ! i)"
      and d: "map (map Not) (dilation_step m) ! i ! j"
    have i': "i < length m" and j': "j < length (m ! i)" using i j by simp_all
    have "\<not> dilation_step m ! i ! j" using d i' j' by (simp add: dilation_step_shape)
    then have "\<not> m ! i ! j" using dilation_step_ge [OF i' j'] by blast
    then show "map (map Not) m ! i ! j" using i' j' by simp
  qed
  show ?thesis using count_true_mono [OF len pt] ne' by blast
qed

text \<open>
  \<open>iterations\<close>: SciPy repeats the step that many times, and for \<open>iterations < 1\<close>
  until the result no longer changes (the first step is always taken). An erosion step
  only clears pixels and a dilation step only sets them, so both loops end.
\<close>

function erosion_until_stable :: "bool list list \<Rightarrow> bool list list" where
  "erosion_until_stable m =
     (let out = erosion_step m in if out = m then out else erosion_until_stable out)"
  by pat_completeness auto
termination
  by (relation "measure count_true") (auto simp: erosion_step_decreases)

function dilation_until_stable :: "bool list list \<Rightarrow> bool list list" where
  "dilation_until_stable m =
     (let out = dilation_step m in if out = m then out else dilation_until_stable out)"
  by pat_completeness auto
termination
  by (relation "measure (\<lambda>m. count_true (map (map Not) m))") (auto simp: dilation_step_decreases)

declare erosion_until_stable.simps [simp del] dilation_until_stable.simps [simp del]

definition binary_erosion :: "bool list list \<Rightarrow> int \<Rightarrow> bool list list" where
  "binary_erosion m iterations =
     (if iterations \<ge> 1 then (erosion_step ^^ nat iterations) m else erosion_until_stable m)"

definition binary_dilation :: "bool list list \<Rightarrow> int \<Rightarrow> bool list list" where
  "binary_dilation m iterations =
     (if iterations \<ge> 1 then (dilation_step ^^ nat iterations) m else dilation_until_stable m)"

text \<open>
  \<open>binary_opening\<close> is the erosion followed by the dilation of its result,
  \<open>binary_closing\<close> the dilation followed by the erosion, each with the same
  \<open>iterations\<close>.
\<close>

definition binary_opening :: "bool list list \<Rightarrow> int \<Rightarrow> bool list list" where
  "binary_opening m iterations = binary_dilation (binary_erosion m iterations) iterations"

definition binary_closing :: "bool list list \<Rightarrow> int \<Rightarrow> bool list list" where
  "binary_closing m iterations = binary_erosion (binary_dilation m iterations) iterations"


subsection \<open>run\_shadow\_detection, one scene\<close>

text \<open>
  Comparisons, sums and the mean on pixels that may be non-finite: a comparison with
  NaN is false, \<open>inf - inf\<close> is NaN.
\<close>

fun flt :: "np_float \<Rightarrow> np_float \<Rightarrow> bool" where
  "flt (Fin a) (Fin b) = (a < b)"
| "flt (Fin a) PosInf = True"
| "flt NegInf (Fin b) = True"
| "flt NegInf PosInf = True"
| "flt _ _ = False"

fun fge :: "np_float \<Rightarrow> np_float \<Rightarrow> bool" where
  "fge (Fin a) (Fin b) = (a \<ge> b)"
| "fge PosInf (Fin b) = True"
| "fge PosInf PosInf = True"
| "fge PosInf NegInf = True"
| "fge (Fin a) NegInf = True"
| "fge NegInf NegInf = True"
| "fge _ _ = False"

fun fadd :: "np_float \<Rightarrow> np_float \<Rightarrow> np_float" where
  "fadd (Fin a) (Fin b) = Fin (a + b)"
| "fadd NaN _ = NaN"
| "fadd _ NaN = NaN"
| "fadd PosInf NegInf = NaN"
| "fadd NegInf PosInf = NaN"
| "fadd PosInf _ = PosInf"
| "fadd _ PosInf = PosInf"
| "fadd NegInf _ = NegInf"
| "fadd _ NegInf = NegInf"

fun fdivn :: "np_float \<Rightarrow> nat \<Rightarrow> np_float" where
  "fdivn (Fin s) n = Fin (s / real n)"
| "fdivn v n = v"

text \<open>
  The five constants read from \<open>config["shadow"]\<close>, the reason string of a scene (its
  two f-strings, by the values they format), and what the loop body produces for a
  scene: the mask as written (\<open>mask.astype(np.uint8)\<close>), the reason, and
  \<open>100.0 * mask.sum() / mask.size\<close>.
\<close>

record shadow_config =
  sun_el_threshold :: real
  abs_if_threshold :: real
  threshold_factor :: real
  min_if_valid :: real
  morph_iters :: int

datatype shadow_reason = SunLow real | MeanIF np_float np_float

record shadow_result =
  mask_u8 :: "nat list list"
  reason :: shadow_reason
  shadow_pct :: np_float

text \<open>
  The \<open>if sun_el < SUN_EL_THRESHOLD ... else ...\<close> of the loop body: the all-true
  mask, or the union of the absolute and the scene-relative threshold, where
  \<open>mean_if\<close> is the mean of the pixels at or above \<open>MIN_IF_VALID\<close> (0.0 when there is
  none).
\<close>

definition branch_mask :: "shadow_config \<Rightarrow> real \<Rightarrow> np_float list list \<Rightarrow> bool list list \<times> shadow_reason" where
  "branch_mask cfg sun_el arr =
     (if sun_el < sun_el_threshold cfg then (map (map (\<lambda>v. True)) arr, SunLow sun_el)
      else
        (let valid = filter (\<lambda>v. fge v (Fin (min_if_valid cfg))) (concat arr);
             mean_if = (if valid \<noteq> [] then fdivn (foldl fadd (Fin 0) valid) (length valid)
                        else Fin 0);
             rel_thr = fmul (threshold_factor cfg) mean_if
         in (map (map (\<lambda>v. flt v (Fin (abs_if_threshold cfg)) \<or> flt v rel_thr)) arr,
             MeanIF mean_if rel_thr)))"

text \<open>
  The loop body for one scene: \<open>sun_elevations.get(stem, 45.0)\<close>, the branch, then
  opening and closing of whichever mask the branch gave.
\<close>

definition shadow_scene :: "shadow_config \<Rightarrow> (string \<rightharpoonup> real) \<Rightarrow> string \<Rightarrow> np_float list list \<Rightarrow> shadow_result" where
  "shadow_scene cfg sun_elevations stem arr =
     (let sun_el = (case sun_elevations stem of Some e \<Rightarrow> e | None \<Rightarrow> 45);
          (mask0, why) = branch_mask cfg sun_el arr;
          mask1 = binary_opening mask0 (morph_iters cfg);
          mask = binary_closing mask1 (morph_iters cfg)
      in \<lparr>mask_u8 = map (map (\<lambda>b. if b then 1 else 0)) mask,
          reason = why,
          shadow_pct = fdiv (100 * real (count_true mask)) (Fin (real (length (concat mask))))\<rparr>)"


lemma erosion_step_map_length: "map length (erosion_step m) = map length m"
  by (rule nth_equalityI) (simp_all add: erosion_step_shape)

lemma dilation_step_map_length: "map length (dilation_step m) = map length m"
  by (rule nth_equalityI) (simp_all add: dilation_step_shape)

lemma erosion_iter_map_length: "map length ((erosion_step ^^ k) m) = map length m"
  by (induction k) (simp_all add: erosion_step_map_length)

lemma dilation_iter_map_length: "map length ((dilation_step ^^ k) m) = map length m"
  by (induction k) (simp_all add: dilation_step_map_length)

lemma erosion_until_stable_map_length: "map length (erosion_until_stable m) = map length m"
proof (induction m rule: erosion_until_stable.induct)
  case (1 m)
  show ?case
  proof (cases "erosion_step m = m")
    case True
    then show ?thesis by (simp add: erosion_until_stable.simps [of m])
  next
    case False
    then have "map length (erosion_until_stable (erosion_step m)) = map length (erosion_step m)"
      using "1.IH" by simp
    then show ?thesis
      using False by (simp add: erosion_until_stable.simps [of m] erosion_step_map_length)
  qed
qed

lemma dilation_until_stable_map_length: "map length (dilation_until_stable m) = map length m"
proof (induction m rule: dilation_until_stable.induct)
  case (1 m)
  show ?case
  proof (cases "dilation_step m = m")
    case True
    then show ?thesis by (simp add: dilation_until_stable.simps [of m])
  next
    case False
    then have "map length (dilation_until_stable (dilation_step m)) = map length (dilation_step m)"
      using "1.IH" by simp
    then show ?thesis
      using False by (simp add: dilation_until_stable.simps [of m] dilation_step_map_length)
  qed
qed

lemma binary_erosion_map_length: "map length (binary_erosion m k) = map length m"
  by (simp add: binary_erosion_def erosion_iter_map_length erosion_until_stable_map_length)

lemma binary_dilation_map_length: "map length (binary_dilation m k) = map length m"
  by (simp add: binary_dilation_def dilation_iter_map_length dilation_until_stable_map_length)

lemma cleanup_map_length:
  "map length (binary_closing (binary_opening m k) k) = map length m"
  by (simp add: binary_closing_def binary_opening_def binary_erosion_map_length
      binary_dilation_map_length)

lemma branch_mask_map_length: "map length (fst (branch_mask cfg sun_el arr)) = map length arr"
  by (simp add: branch_mask_def Let_def comp_def)

lemma shadow_scene_mask:
  "mask_u8 (shadow_scene cfg sun_elevations stem arr) =
     map (map (\<lambda>b. if b then 1 else 0))
       (binary_closing (binary_opening
          (fst (branch_mask cfg (case sun_elevations stem of Some e \<Rightarrow> e | None \<Rightarrow> 45) arr))
          (morph_iters cfg)) (morph_iters cfg))"
  by (simp add: shadow_scene_def Let_def split: prod.splits)

lemma shadow_scene_reason:
  "reason (shadow_scene cfg sun_elevations stem arr) =
     snd (branch_mask cfg (case sun_elevations stem of Some e \<Rightarrow> e | None \<Rightarrow> 45) arr)"
  by (simp add: shadow_scene_def Let_def split: prod.splits)

text \<open>
  Claim C9. For every input raster and every configuration, every value of the mask
  written after opening and closing is exactly 0 or 1 (and the mask has the
  dimensions of its source raster). This includes \<open>morph_iters < 1\<close>, where the
  cleanup loops until stable, and rasters with non-finite pixels.
\<close>

theorem shadow_mask_binary:
  "(\<forall>row\<in>set (mask_u8 (shadow_scene cfg sun_elevations stem arr)). \<forall>v\<in>set row. v = 0 \<or> v = 1) \<and>
   map length (mask_u8 (shadow_scene cfg sun_elevations stem arr)) = map length arr"
proof
  show "\<forall>row\<in>set (mask_u8 (shadow_scene cfg sun_elevations stem arr)). \<forall>v\<in>set row. v = 0 \<or> v = 1"
    unfolding shadow_scene_mask by auto
  show "map length (mask_u8 (shadow_scene cfg sun_elevations stem arr)) = map length arr"
    unfolding shadow_scene_mask
    by (simp add: comp_def cleanup_map_length [unfolded map_map comp_def] branch_mask_map_length [unfolded map_map comp_def])
qed


text \<open>
  The last step of the cleanup is an erosion with \<open>border_value = 0\<close>: it clears
  every pixel that has a neighbour outside the array. So the corner pixel of the
  written mask is 0 for every non-empty raster, every configuration and either branch.
\<close>

lemma same_shape_corner:
  assumes "map length x = map length m" "m \<noteq> []" "m ! 0 \<noteq> []"
  shows "x \<noteq> [] \<and> x ! 0 \<noteq> []"
proof -
  have l: "length x = length m" using assms(1) by (metis length_map)
  then have ne: "x \<noteq> []" using assms(2) by auto
  have "length (x ! 0) = length (m ! 0)"
    using assms(1,2) l by (metis length_greater_0_conv nth_map)
  then show ?thesis using ne assms(3) by auto
qed

lemma erosion_step_corner:
  assumes "m \<noteq> []" "m ! 0 \<noteq> []"
  shows "\<not> erosion_step m ! 0 ! 0"
proof
  assume "erosion_step m ! 0 ! 0"
  then have "list_all (\<lambda>(di, dj). pixel m (int 0 + di) (int 0 + dj)) STRUCT"
    using assms by (simp add: erosion_step_def)
  moreover have "(- 1, - 1) \<in> set STRUCT" by (simp add: STRUCT_def)
  ultimately have "pixel m (int 0 + (- 1)) (int 0 + (- 1))" by (auto simp: list_all_iff)
  then show False by (simp add: pixel_def)
qed

lemma erosion_until_stable_corner:
  "m \<noteq> [] \<Longrightarrow> m ! 0 \<noteq> [] \<Longrightarrow> \<not> erosion_until_stable m ! 0 ! 0"
proof (induction m rule: erosion_until_stable.induct)
  case (1 m)
  show ?case
  proof (cases "erosion_step m = m")
    case True
    then have "erosion_until_stable m = erosion_step m"
      by (simp add: erosion_until_stable.simps [of m])
    then show ?thesis using erosion_step_corner [OF "1.prems"] by simp
  next
    case False
    have ne: "erosion_step m \<noteq> [] \<and> erosion_step m ! 0 \<noteq> []"
      using same_shape_corner [OF erosion_step_map_length "1.prems"] .
    have "erosion_until_stable m = erosion_until_stable (erosion_step m)"
      using False by (simp add: erosion_until_stable.simps [of m])
    then show ?thesis using "1.IH" [OF refl False] ne by simp
  qed
qed

lemma binary_erosion_corner:
  assumes "m \<noteq> []" "m ! 0 \<noteq> []"
  shows "\<not> binary_erosion m k ! 0 ! 0"
proof (cases "k \<ge> 1")
  case True
  then obtain n where n: "nat k = Suc n" by (cases "nat k") auto
  have ne: "(erosion_step ^^ n) m \<noteq> [] \<and> (erosion_step ^^ n) m ! 0 \<noteq> []"
    using same_shape_corner [OF erosion_iter_map_length assms] .
  have "binary_erosion m k = erosion_step ((erosion_step ^^ n) m)"
    using True n by (simp add: binary_erosion_def)
  then show ?thesis using erosion_step_corner ne by simp
next
  case False
  then show ?thesis using erosion_until_stable_corner [OF assms] by (simp add: binary_erosion_def)
qed

lemma cleanup_clears_corner:
  assumes "arr \<noteq> []" "arr ! 0 \<noteq> []"
  shows "mask_u8 (shadow_scene cfg sun_elevations stem arr) ! 0 ! 0 = 0"
proof -
  define m0 where "m0 = fst (branch_mask cfg (case sun_elevations stem of Some e \<Rightarrow> e | None \<Rightarrow> 45) arr)"
  define d where "d = binary_dilation (binary_opening m0 (morph_iters cfg)) (morph_iters cfg)"
  define fin where "fin = binary_closing (binary_opening m0 (morph_iters cfg)) (morph_iters cfg)"
  have "map length d = map length arr"
    by (simp add: d_def m0_def binary_opening_def binary_dilation_map_length
        binary_erosion_map_length branch_mask_map_length)
  then have dne: "d \<noteq> [] \<and> d ! 0 \<noteq> []" using same_shape_corner assms by blast
  have fin_eq: "fin = binary_erosion d (morph_iters cfg)"
    by (simp add: fin_def d_def binary_closing_def)
  have c: "\<not> fin ! 0 ! 0" unfolding fin_eq using binary_erosion_corner dne by blast
  have "map length fin = map length arr"
    by (simp add: fin_def m0_def cleanup_map_length branch_mask_map_length)
  then have fne: "fin \<noteq> [] \<and> fin ! 0 \<noteq> []" using same_shape_corner assms by blast
  have "mask_u8 (shadow_scene cfg sun_elevations stem arr) = map (map (\<lambda>b. if b then 1 else 0)) fin"
    by (simp add: shadow_scene_mask fin_def m0_def)
  then show ?thesis using c fne by simp
qed

text \<open>
  The constants of the spec's concrete scenario, with one cleanup iteration.
\<close>

definition scenario_config :: shadow_config where
  "scenario_config = \<lparr>sun_el_threshold = 10, abs_if_threshold = 1 / 20, threshold_factor = 1 / 2,
           min_if_valid = 1 / 20, morph_iters = 1\<rparr>"

theorem shadow_mask_binary_witness:
  "set (concat (mask_u8 (shadow_scene scenario_config [''a'' \<mapsto> 60] ''a''
          [[Fin (1 / 100), Fin (1 / 100), Fin (1 / 100), Fin 1],
           [Fin (1 / 100), Fin (1 / 100), Fin (1 / 100), Fin 1],
           [Fin (1 / 100), Fin (1 / 100), Fin (1 / 100), NaN]]))) \<subseteq> {0, 1} \<and>
   map length (mask_u8 (shadow_scene scenario_config [''a'' \<mapsto> 60] ''a''
          [[Fin (1 / 100), Fin (1 / 100), Fin (1 / 100), Fin 1],
           [Fin (1 / 100), Fin (1 / 100), Fin (1 / 100), Fin 1],
           [Fin (1 / 100), Fin (1 / 100), Fin (1 / 100), NaN]])) = [4, 4, 4]"
  using shadow_mask_binary [of scenario_config "[''a'' \<mapsto> 60]" "''a''"
          "[[Fin (1 / 100), Fin (1 / 100), Fin (1 / 100), Fin 1],
           [Fin (1 / 100), Fin (1 / 100), Fin (1 / 100), Fin 1],
           [Fin (1 / 100), Fin (1 / 100), Fin (1 / 100), NaN]]"]
  by auto

text \<open>
  Claim C3 fails on the code. With the sun elevation (5) below the threshold (10) the
  branch sets the mask all-true, but the cleanup then runs on it: opening gives the
  all-true mask back, and the erosion that ends the closing clears the border. On a
  3 by 3 raster only the centre pixel is left and the coverage logged is 100/9, not
  100.
\<close>

theorem low_sun_mask_is_eroded:
  "fst (branch_mask scenario_config 5 (replicate 3 (replicate 3 (Fin (1 / 5))))) =
     [[True, True, True], [True, True, True], [True, True, True]] \<and>
   shadow_scene scenario_config [''a'' \<mapsto> 5] ''a'' (replicate 3 (replicate 3 (Fin (1 / 5)))) =
     \<lparr>mask_u8 = [[0, 0, 0], [0, 1, 0], [0, 0, 0]], reason = SunLow 5,
      shadow_pct = Fin (100 / 9)\<rparr>"
  by code_simp

text \<open>
  Claim C7 (as the code has it). For a scene whose sun elevation is absent from the
  metadata table the default 45 is compared with \<open>sun_el_threshold\<close> like any other
  elevation: the scene takes the adaptive-threshold branch exactly when
  \<open>sun_el_threshold \<le> 45\<close>, and the low-sun branch, with reason "Sun low (45.0)",
  exactly when \<open>sun_el_threshold > 45\<close>.
\<close>

theorem default_sun_elevation_branch:
  assumes "sun_elevations stem = None"
  shows "(reason (shadow_scene cfg sun_elevations stem arr) = SunLow 45 \<longleftrightarrow>
            45 < sun_el_threshold cfg) \<and>
         ((\<exists>mean_if rel_thr. reason (shadow_scene cfg sun_elevations stem arr) = MeanIF mean_if rel_thr)
            \<longleftrightarrow> sun_el_threshold cfg \<le> 45)"
  using assms by (auto simp: shadow_scene_reason branch_mask_def Let_def)

theorem default_sun_elevation_branch_witness:
  "(Map.empty :: string \<rightharpoonup> real) ''scene'' = None \<and>
   sun_el_threshold scenario_config \<le> 45 \<and>
   (\<exists>mean_if rel_thr. reason (shadow_scene scenario_config Map.empty ''scene'' [[Fin (1 / 5)]]) =
      MeanIF mean_if rel_thr)"
  using default_sun_elevation_branch [of Map.empty "''scene''" scenario_config "[[Fin (1 / 5)]]"]
  by (simp add: scenario_config_def)

text \<open>
  Claim C7 as stated fails for a configuration with \<open>sun_el_threshold = 50\<close>: the
  scene with no sun elevation takes the low-sun branch.
\<close>

theorem default_sun_elevation_low_sun:
  "reason (shadow_scene (scenario_config\<lparr>sun_el_threshold := 50\<rparr>) Map.empty ''scene''
             [[Fin (1 / 5)]]) = SunLow 45"
  by (simp add: shadow_scene_reason branch_mask_def scenario_config_def)



section \<open>PhotometricCorrector: MinnaertCorrector (utils/correction.py)\<close>

text \<open>
  \<open>fallback_angles\<close> reads the scene's label: the text of its \<open>solar_incidence\<close> and
  \<open>sun_elevation\<close> elements, where present. The label is \<open>None\<close> when the file is
  missing or does not parse; any exception gives the defaults.
\<close>

record label_xml =
  solar_incidence :: "string option"
  sun_elevation :: "string option"

definition fallback_angles ::
  "(string \<Rightarrow> real option) \<Rightarrow> label_xml option \<Rightarrow> real \<Rightarrow> real \<times> real" where
  "fallback_angles py_float xml default_emission =
     (case xml of
        None \<Rightarrow> (45, default_emission)
      | Some lbl \<Rightarrow>
          (case solar_incidence lbl of
             Some txt \<Rightarrow>
               (case py_float txt of
                  Some incidence \<Rightarrow> (incidence, default_emission)
                | None \<Rightarrow> (45, default_emission))
           | None \<Rightarrow>
               (case sun_elevation lbl of
                  Some txt \<Rightarrow>
                    (case py_float txt of
                       Some e \<Rightarrow> (90 - e, default_emission)
                     | None \<Rightarrow> (45, default_emission))
                | None \<Rightarrow> (45, default_emission))))"

text \<open>
  The fields of a \<open>MinnaertCorrector\<close> that \<open>process_one\<close> reads; \<open>meta\<close> maps a stem
  to the start time of its row in the metadata catalogue.
\<close>

record corrector =
  meta :: "string \<rightharpoonup> int"
  oat_times :: "int list"
  emis_vals :: "real list"
  spm_times :: "int list"
  sunel_vals :: "real list"
  dark :: real
  gain :: real
  k_exponent :: real

text \<open>
  The directory of input rasters: the names \<open>glob("*.tif")\<close> yields, what
  \<open>rasterio.open\<close> and \<open>read(1)\<close> return for a name (the raster, or the exception they
  raise), and the label beside a stem.
\<close>

record level0 =
  tifs :: "string list"
  read_tif :: "string \<Rightarrow> py_error + real list list"
  xml_of :: "string \<Rightarrow> label_xml option"

text \<open>
  What a run leaves behind: the angle files and the rasters written, the rows of the
  QC table (one per scene that succeeded), and the log.
\<close>

record stats =
  out_file :: string
  incidence_deg :: real
  emission_deg :: real
  stat_min :: real
  stat_max :: real
  stat_mean :: real
  stat_std :: real

datatype log_line = Processed string | Failed string py_error

record run_log =
  angles_json :: "(string \<times> real \<times> real) list"
  written_if :: "(string \<times> real list list) list"
  qc_rows :: "stats list"
  log_lines :: "log_line list"

text \<open>\<open>Path(name).stem\<close>: the name up to its last dot, unless that dot is first or last.\<close>

definition path_stem :: "string \<Rightarrow> string" where
  "path_stem name =
     (let i = length name - length (takeWhile (\<lambda>c. c \<noteq> CHR ''.'') (rev name))
      in if CHR ''.'' \<in> set name \<and> 1 < i \<and> i < length name then take (i - 1) name else name)"

text \<open>
  The angle calculation of \<open>process_one\<close>: interpolated when both series are
  non-empty and neither interpolation raises, the fallback otherwise.
\<close>

definition resolve_angles ::
  "(string \<Rightarrow> real option) \<Rightarrow> corrector \<Rightarrow> level0 \<Rightarrow> string \<Rightarrow> int \<Rightarrow> real \<times> real" where
  "resolve_angles py_float c env stem img_time =
     (if spm_times c \<noteq> [] \<and> oat_times c \<noteq> [] then
        (case interp_angle img_time (spm_times c) (sunel_vals c) of
           Inl e \<Rightarrow> fallback_angles py_float (xml_of env stem) 10
         | Inr sun_el \<Rightarrow>
             (case interp_angle img_time (oat_times c) (emis_vals c) of
                Inl e \<Rightarrow> fallback_angles py_float (xml_of env stem) 10
              | Inr emission \<Rightarrow> (90 - sun_el, emission)))
      else fallback_angles py_float (xml_of env stem) 10)"

definition deg2rad :: "real \<Rightarrow> real" where
  "deg2rad d = d * pi / 180"

text \<open>
  \<open>process_one\<close>, with the log it has written so far. The lookup of the start time
  comes first and raises \<open>KeyError\<close> before anything is written. \<open>np.min\<close> raises
  \<open>ValueError\<close> on a raster with no pixel, after the raster has been written.
\<close>

definition process_one ::
  "(string \<Rightarrow> real option) \<Rightarrow> corrector \<Rightarrow> level0 \<Rightarrow> string \<Rightarrow> run_log \<Rightarrow> (py_error + stats) \<times> run_log" where
  "process_one py_float c env tif st =
     (let stem = path_stem tif in
      case meta c stem of
        None \<Rightarrow> (Inl (KeyError (''No start_time for '' @ stem)), st)
      | Some img_time \<Rightarrow>
          (let (incidence, emission) = resolve_angles py_float c env stem img_time;
               st1 = st\<lparr>angles_json := angles_json st @ [(stem, incidence, emission)]\<rparr>;
               mu0 = max (cos (deg2rad incidence)) (1 / 10 ^ 6);
               mu = max (cos (deg2rad emission)) (1 / 10 ^ 6)
           in case read_tif env tif of
                Inl e \<Rightarrow> (Inl e, st1)
              | Inr dn \<Rightarrow>
                  (let arr = map (map (\<lambda>d. max ((d - dark c) * gain c) 0)) dn;
                       arr_if = map (map (\<lambda>a. a * mu0 powr (- k_exponent c) * mu powr (k_exponent c - 1))) arr;
                       out = stem @ ''_if.tif'';
                       st2 = st1\<lparr>written_if := written_if st1 @ [(out, arr_if)]\<rparr>;
                       px = concat arr_if
                   in if px = [] then (Inl ValueError, st2)
                      else
                        (let mean = sum_list px / real (length px);
                             s = \<lparr>out_file = out, incidence_deg = incidence, emission_deg = emission,
                                  stat_min = Min (set px), stat_max = Max (set px), stat_mean = mean,
                                  stat_std = sqrt (sum_list (map (\<lambda>x. (x - mean) ^ 2) px) / real (length px))\<rparr>
                         in (Inr s, st2\<lparr>log_lines := log_lines st2 @ [Processed out]\<rparr>)))))"

text \<open>
  The body of the loop of \<open>run\<close>: \<open>try: ... except Exception as e: self.log(...)\<close>. A
  scene that raised gets a log line and no QC row; the loop goes on. \<open>run\<close> visits
  \<open>sorted(glob("*.tif"))\<close>.
\<close>

definition run_step ::
  "(string \<Rightarrow> real option) \<Rightarrow> corrector \<Rightarrow> level0 \<Rightarrow> run_log \<Rightarrow> string \<Rightarrow> run_log" where
  "run_step py_float c env st tif =
     (case process_one py_float c env tif st of
        (Inr s, st') \<Rightarrow> st'\<lparr>qc_rows := qc_rows st' @ [s]\<rparr>
      | (Inl e, st') \<Rightarrow> st'\<lparr>log_lines := log_lines st' @ [Failed tif e]\<rparr>)"

definition empty_log :: run_log where
  "empty_log = \<lparr>angles_json = [], written_if = [], qc_rows = [], log_lines = []\<rparr>"

definition run :: "(string \<Rightarrow> real option) \<Rightarrow> corrector \<Rightarrow> level0 \<Rightarrow> run_log" where
  "run py_float c env = foldl (run_step py_float c env) empty_log (sort (tifs env))"


text \<open>
  A scene only appends to the log, and what it appends does not depend on the log so
  far.
\<close>

definition append_log :: "run_log \<Rightarrow> run_log \<Rightarrow> run_log" where
  "append_log st d =
     \<lparr>angles_json = angles_json st @ angles_json d, written_if = written_if st @ written_if d,
      qc_rows = qc_rows st @ qc_rows d, log_lines = log_lines st @ log_lines d\<rparr>"

definition outputs_of :: "run_log \<Rightarrow> (string \<times> real \<times> real) list \<times> (string \<times> real list list) list \<times> stats list" where
  "outputs_of st = (angles_json st, written_if st, qc_rows st)"

lemma process_one_missing:
  "meta c (path_stem tif) = None \<Longrightarrow>
   process_one py_float c env tif st =
     (Inl (KeyError (''No start_time for '' @ path_stem tif)), st)"
  by (simp add: process_one_def)

lemma run_step_missing:
  "meta c (path_stem tif) = None \<Longrightarrow>
   run_step py_float c env st tif =
     st\<lparr>log_lines := log_lines st @ [Failed tif (KeyError (''No start_time for '' @ path_stem tif))]\<rparr>"
  by (simp add: run_step_def process_one_missing)

lemma process_one_append:
  "process_one py_float c env tif st =
     (fst (process_one py_float c env tif empty_log),
      append_log st (snd (process_one py_float c env tif empty_log)))"
proof (cases "meta c (path_stem tif)")
  case None
  then show ?thesis by (simp add: process_one_missing append_log_def empty_log_def)
next
  case (Some img_time)
  obtain incidence emission where ang:
    "resolve_angles py_float c env (path_stem tif) img_time = (incidence, emission)"
    by (cases "resolve_angles py_float c env (path_stem tif) img_time") auto
  show ?thesis
  proof (cases "read_tif env tif")
    case (Inl e)
    then show ?thesis
      using Some ang by (simp add: process_one_def append_log_def empty_log_def)
  next
    case (Inr dn)
    then show ?thesis
      using Some ang by (simp add: process_one_def append_log_def empty_log_def Let_def)
  qed
qed

lemma run_step_append:
  "run_step py_float c env st tif = append_log st (run_step py_float c env empty_log tif)"
proof -
  obtain r d where e: "process_one py_float c env tif empty_log = (r, d)"
    by (cases "process_one py_float c env tif empty_log") auto
  have p: "process_one py_float c env tif st = (r, append_log st d)"
    using process_one_append [of py_float c env tif st] e by simp
  have a: "append_log empty_log d = d" by (simp add: append_log_def empty_log_def)
  show ?thesis
    using e p by (cases r) (simp_all add: run_step_def append_log_def empty_log_def)
qed


lemma outputs_of_append:
  "outputs_of st = outputs_of st' \<Longrightarrow> outputs_of (append_log st d) = outputs_of (append_log st' d)"
  by (simp add: outputs_of_def append_log_def)

lemma foldl_skips_missing:
  "outputs_of st = outputs_of st' \<Longrightarrow>
   outputs_of (foldl (run_step py_float c env) st xs) =
   outputs_of (foldl (run_step py_float c env') st'
                 (filter (\<lambda>t. meta c (path_stem t) \<noteq> None) xs))"
  if same: "read_tif env' = read_tif env" "xml_of env' = xml_of env"
proof (induction xs arbitrary: st st')
  case Nil
  then show ?case by simp
next
  case (Cons x xs)
  show ?case
  proof (cases "meta c (path_stem x)")
    case None
    have "outputs_of (run_step py_float c env st x) = outputs_of st'"
      using Cons.prems None by (simp add: run_step_missing outputs_of_def)
    then show ?thesis using Cons.IH None by simp
  next
    case (Some t0)
    have d: "run_step py_float c env' empty_log x = run_step py_float c env empty_log x"
      unfolding run_step_def process_one_def resolve_angles_def same by (rule refl)
    have "outputs_of (run_step py_float c env st x) = outputs_of (run_step py_float c env' st' x)"
      using run_step_append [of py_float c env st x] run_step_append [of py_float c env' st' x]
        d outputs_of_append [OF Cons.prems] by simp
    then show ?thesis using Cons.IH Some by simp
  qed
qed

lemma step_written:
  assumes "(n, a) \<in> set (written_if (run_step py_float c env empty_log tif))"
  shows "meta c (path_stem tif) \<noteq> None \<and> n = path_stem tif @ ''_if.tif''"
proof (cases "meta c (path_stem tif)")
  case None
  then show ?thesis using assms by (simp add: run_step_missing empty_log_def)
next
  case (Some img_time)
  obtain incidence emission where ang:
    "resolve_angles py_float c env (path_stem tif) img_time = (incidence, emission)"
    by (cases "resolve_angles py_float c env (path_stem tif) img_time") auto
  show ?thesis
  proof (cases "read_tif env tif")
    case (Inl e)
    then show ?thesis
      using Some ang assms by (simp add: run_step_def process_one_def empty_log_def)
  next
    case (Inr dn)
    then show ?thesis
      using Some ang assms
      by (simp add: run_step_def process_one_def empty_log_def Let_def split: if_splits)
  qed
qed

lemma step_qc:
  assumes "s \<in> set (qc_rows (run_step py_float c env empty_log tif))"
  shows "meta c (path_stem tif) \<noteq> None \<and> out_file s = path_stem tif @ ''_if.tif''"
proof (cases "meta c (path_stem tif)")
  case None
  then show ?thesis using assms by (simp add: run_step_missing empty_log_def)
next
  case (Some img_time)
  obtain incidence emission where ang:
    "resolve_angles py_float c env (path_stem tif) img_time = (incidence, emission)"
    by (cases "resolve_angles py_float c env (path_stem tif) img_time") auto
  show ?thesis
  proof (cases "read_tif env tif")
    case (Inl e)
    then show ?thesis
      using Some ang assms by (simp add: run_step_def process_one_def empty_log_def)
  next
    case (Inr dn)
    then show ?thesis
      using Some ang assms
      by (auto simp: run_step_def process_one_def empty_log_def Let_def split: if_splits)
  qed
qed

lemma step_written_present:
  assumes "meta c (path_stem tif) \<noteq> None" "read_tif env tif = Inr dn"
  shows "path_stem tif @ ''_if.tif'' \<in> fst ` set (written_if (run_step py_float c env empty_log tif))"
proof -
  obtain img_time where m: "meta c (path_stem tif) = Some img_time" using assms(1) by auto
  obtain incidence emission where ang:
    "resolve_angles py_float c env (path_stem tif) img_time = (incidence, emission)"
    by (cases "resolve_angles py_float c env (path_stem tif) img_time") auto
  show ?thesis
    using m ang assms(2)
    by (simp add: run_step_def process_one_def empty_log_def Let_def)
qed

lemma foldl_written:
  "(n, a) \<in> set (written_if (foldl (run_step py_float c env) st xs)) \<Longrightarrow>
   (n, a) \<in> set (written_if st) \<or>
   (\<exists>t\<in>set xs. meta c (path_stem t) \<noteq> None \<and> n = path_stem t @ ''_if.tif'')"
proof (induction xs arbitrary: st)
  case Nil
  then show ?case by simp
next
  case (Cons x xs)
  from Cons.IH [OF Cons.prems [simplified]]
  consider "(n, a) \<in> set (written_if (run_step py_float c env st x))"
    | "\<exists>t\<in>set xs. meta c (path_stem t) \<noteq> None \<and> n = path_stem t @ ''_if.tif''"
    by blast
  then show ?case
  proof cases
    case 1
    then have "(n, a) \<in> set (written_if st) \<or>
        (n, a) \<in> set (written_if (run_step py_float c env empty_log x))"
      using run_step_append [of py_float c env st x] by (auto simp: append_log_def)
    then show ?thesis using step_written [of n a py_float c env x] by auto
  next
    case 2
    then show ?thesis by auto
  qed
qed

lemma foldl_qc:
  "s \<in> set (qc_rows (foldl (run_step py_float c env) st xs)) \<Longrightarrow>
   s \<in> set (qc_rows st) \<or>
   (\<exists>t\<in>set xs. meta c (path_stem t) \<noteq> None \<and> out_file s = path_stem t @ ''_if.tif'')"
proof (induction xs arbitrary: st)
  case Nil
  then show ?case by simp
next
  case (Cons x xs)
  from Cons.IH [OF Cons.prems [simplified]]
  consider "s \<in> set (qc_rows (run_step py_float c env st x))"
    | "\<exists>t\<in>set xs. meta c (path_stem t) \<noteq> None \<and> out_file s = path_stem t @ ''_if.tif''"
    by blast
  then show ?case
  proof cases
    case 1
    then have "s \<in> set (qc_rows st) \<or> s \<in> set (qc_rows (run_step py_float c env empty_log x))"
      using run_step_append [of py_float c env st x] by (auto simp: append_log_def)
    then show ?thesis using step_qc [of s py_float c env x] by auto
  next
    case 2
    then show ?thesis by auto
  qed
qed

lemma foldl_grows:
  "set (written_if st) \<subseteq> set (written_if (foldl (run_step py_float c env) st xs)) \<and>
   set (log_lines st) \<subseteq> set (log_lines (foldl (run_step py_float c env) st xs))"
proof (induction xs arbitrary: st)
  case Nil
  then show ?case by simp
next
  case (Cons x xs)
  have "set (written_if st) \<subseteq> set (written_if (run_step py_float c env st x)) \<and>
        set (log_lines st) \<subseteq> set (log_lines (run_step py_float c env st x))"
    using run_step_append [of py_float c env st x] by (auto simp: append_log_def)
  then show ?case using Cons.IH [of "run_step py_float c env st x"] by auto
qed

lemma foldl_logs_failure:
  "t \<in> set xs \<Longrightarrow> meta c (path_stem t) = None \<Longrightarrow>
   Failed t (KeyError (''No start_time for '' @ path_stem t))
     \<in> set (log_lines (foldl (run_step py_float c env) st xs))"
proof (induction xs arbitrary: st)
  case Nil
  then show ?case by simp
next
  case (Cons x xs)
  show ?case
  proof (cases "t = x")
    case True
    then have "Failed t (KeyError (''No start_time for '' @ path_stem t))
        \<in> set (log_lines (run_step py_float c env st x))"
      using Cons.prems(2) by (simp add: run_step_missing)
    then show ?thesis
      using foldl_grows [of "run_step py_float c env st x" py_float c env xs] by auto
  next
    case False
    then show ?thesis using Cons by simp
  qed
qed

lemma foldl_writes_present:
  "t \<in> set xs \<Longrightarrow> meta c (path_stem t) \<noteq> None \<Longrightarrow> read_tif env t = Inr dn \<Longrightarrow>
   path_stem t @ ''_if.tif'' \<in> fst ` set (written_if (foldl (run_step py_float c env) st xs))"
proof (induction xs arbitrary: st)
  case Nil
  then show ?case by simp
next
  case (Cons x xs)
  show ?case
  proof (cases "t = x")
    case True
    have "path_stem t @ ''_if.tif'' \<in> fst ` set (written_if (run_step py_float c env st x))"
      using step_written_present [OF Cons.prems(2,3), of py_float] True
        run_step_append [of py_float c env st x] by (auto simp: append_log_def)
    then show ?thesis
      using foldl_grows [of "run_step py_float c env st x" py_float c env xs] by auto
  next
    case False
    then show ?thesis using Cons by simp
  qed
qed

text \<open>
  Claim C8. For every batch, if the stem of a scene has no start time in the metadata
  index, processing it fails with \<open>KeyError\<close> (the missing-timing-record error) before
  anything is written; no output raster and no QC row is produced for it; the failure
  is logged; and every other scene of the batch is still processed: each other scene
  with a start time and a readable raster gets its output raster, and rasters, angle
  files and QC rows of the batch are those of the batch without the scenes that lack a
  start time.
\<close>

theorem missing_timing_record_skips_scene:
  assumes "meta c (path_stem tif) = None"
  shows "process_one py_float c env tif st =
           (Inl (KeyError (''No start_time for '' @ path_stem tif)), st) \<and>
         path_stem tif @ ''_if.tif'' \<notin> fst ` set (written_if (run py_float c env)) \<and>
         path_stem tif @ ''_if.tif'' \<notin> out_file ` set (qc_rows (run py_float c env)) \<and>
         (tif \<in> set (tifs env) \<longrightarrow>
            Failed tif (KeyError (''No start_time for '' @ path_stem tif))
              \<in> set (log_lines (run py_float c env))) \<and>
         (\<forall>other dn. other \<in> set (tifs env) \<and> meta c (path_stem other) \<noteq> None \<and>
              read_tif env other = Inr dn \<longrightarrow>
            path_stem other @ ''_if.tif'' \<in> fst ` set (written_if (run py_float c env))) \<and>
         outputs_of (run py_float c env) =
           outputs_of (run py_float c
             (env\<lparr>tifs := filter (\<lambda>t. meta c (path_stem t) \<noteq> None) (tifs env)\<rparr>))"
proof (intro conjI)
  show "process_one py_float c env tif st =
           (Inl (KeyError (''No start_time for '' @ path_stem tif)), st)"
    using assms by (rule process_one_missing)
  show "path_stem tif @ ''_if.tif'' \<notin> fst ` set (written_if (run py_float c env))"
  proof
    assume "path_stem tif @ ''_if.tif'' \<in> fst ` set (written_if (run py_float c env))"
    then obtain a where "(path_stem tif @ ''_if.tif'', a) \<in> set (written_if (run py_float c env))"
      by auto
    then obtain t where "meta c (path_stem t) \<noteq> None" "path_stem tif @ ''_if.tif'' = path_stem t @ ''_if.tif''"
      using foldl_written [of "path_stem tif @ ''_if.tif''" a py_float c env empty_log "sort (tifs env)"]
      by (auto simp: run_def empty_log_def)
    then show False using assms by simp
  qed
  show "path_stem tif @ ''_if.tif'' \<notin> out_file ` set (qc_rows (run py_float c env))"
  proof
    assume "path_stem tif @ ''_if.tif'' \<in> out_file ` set (qc_rows (run py_float c env))"
    then obtain s where "s \<in> set (qc_rows (run py_float c env))" "out_file s = path_stem tif @ ''_if.tif''"
      by auto
    then obtain t where "meta c (path_stem t) \<noteq> None" "path_stem tif @ ''_if.tif'' = path_stem t @ ''_if.tif''"
      using foldl_qc [of s py_float c env empty_log "sort (tifs env)"]
      by (auto simp: run_def empty_log_def)
    then show False using assms by simp
  qed
  show "tif \<in> set (tifs env) \<longrightarrow>
            Failed tif (KeyError (''No start_time for '' @ path_stem tif))
              \<in> set (log_lines (run py_float c env))"
    using foldl_logs_failure [of tif "sort (tifs env)" c py_float env empty_log] assms
    by (simp add: run_def)
  show "\<forall>other dn. other \<in> set (tifs env) \<and> meta c (path_stem other) \<noteq> None \<and>
              read_tif env other = Inr dn \<longrightarrow>
            path_stem other @ ''_if.tif'' \<in> fst ` set (written_if (run py_float c env))"
    using foldl_writes_present [of _ "sort (tifs env)" c env _ py_float empty_log]
    by (simp add: run_def)
  show "outputs_of (run py_float c env) =
           outputs_of (run py_float c
             (env\<lparr>tifs := filter (\<lambda>t. meta c (path_stem t) \<noteq> None) (tifs env)\<rparr>))"
    using foldl_skips_missing [of "env\<lparr>tifs := filter (\<lambda>t. meta c (path_stem t) \<noteq> None) (tifs env)\<rparr>"
        env empty_log empty_log py_float c "sort (tifs env)"]
    by (simp add: run_def filter_sort)
qed


definition example_corrector :: corrector where
  "example_corrector =
     \<lparr>meta = [''b'' \<mapsto> 0], oat_times = [], emis_vals = [], spm_times = [], sunel_vals = [],
      dark = 10, gain = 1 / 500, k_exponent = 7 / 10\<rparr>"

definition example_level0 :: level0 where
  "example_level0 =
     \<lparr>tifs = [''b.tif'', ''a.tif''], read_tif = (\<lambda>t. Inr [[100]]), xml_of = (\<lambda>s. None)\<rparr>"

theorem missing_timing_record_skips_scene_witness:
  "meta example_corrector (path_stem ''a.tif'') = None \<and>
   ''a.tif'' \<in> set (tifs example_level0) \<and>
   process_one float_plain example_corrector example_level0 ''a.tif'' empty_log =
     (Inl (KeyError ''No start_time for a''), empty_log) \<and>
   ''a_if.tif'' \<notin> fst ` set (written_if (run float_plain example_corrector example_level0)) \<and>
   ''a_if.tif'' \<notin> out_file ` set (qc_rows (run float_plain example_corrector example_level0)) \<and>
   Failed ''a.tif'' (KeyError ''No start_time for a'')
     \<in> set (log_lines (run float_plain example_corrector example_level0)) \<and>
   ''b_if.tif'' \<in> fst ` set (written_if (run float_plain example_corrector example_level0))"
proof -
  have sa: "path_stem ''a.tif'' = ''a''" and sb: "path_stem ''b.tif'' = ''b''"
    by (simp_all add: path_stem_def)
  have h: "meta example_corrector (path_stem ''a.tif'') = None"
    by (simp add: sa example_corrector_def)
  have b: "''b.tif'' \<in> set (tifs example_level0) \<and>
           meta example_corrector (path_stem ''b.tif'') \<noteq> None \<and>
           read_tif example_level0 ''b.tif'' = Inr [[100]]"
    by (simp add: sb example_corrector_def example_level0_def)
  have a: "''a.tif'' \<in> set (tifs example_level0)" by (simp add: example_level0_def)
  note T = missing_timing_record_skips_scene [OF h, of float_plain example_level0 empty_log]
  from T b have "path_stem ''b.tif'' @ ''_if.tif'' \<in>
      fst ` set (written_if (run float_plain example_corrector example_level0))" by blast
  then show ?thesis using T a h by (simp add: sa sb)
qed



section \<open>The pipeline and its configuration (main.py)\<close>

text \<open>
  \<open>config/config.json\<close> as \<open>json.load\<close> returns it: a dictionary of sections, each a
  dictionary of numbers. \<open>d[key]\<close> raises \<open>KeyError\<close> on a missing key. \<open>load_config\<close>
  raises \<open>FileNotFoundError\<close> when the file does not exist (\<open>None\<close> here) and checks
  nothing else.
\<close>

type_synonym config = "string \<rightharpoonup> (string \<rightharpoonup> real)"

definition getitem :: "(string \<rightharpoonup> 'a) \<Rightarrow> string \<Rightarrow> py_error + 'a" where
  "getitem d key = (case d key of None \<Rightarrow> Inl (KeyError key) | Some v \<Rightarrow> Inr v)"

definition load_config :: "config option \<Rightarrow> py_error + config" where
  "load_config config_json =
     (case config_json of None \<Rightarrow> Inl FileNotFoundError | Some c \<Rightarrow> Inr c)"

text \<open>
  What steps 1 to 5 of \<open>run_pipeline\<close> (directory setup, copying, metadata
  extraction, conversion, cropping) leave for the stages modelled here, taken as
  having completed: the input rasters, the two columns of the metadata catalogue, the
  lines of the OAT and SPM files where they exist, and the stems step 7 collects from
  the command line.
\<close>

record project =
  config_json :: "config option"
  crops :: level0
  start_times :: "string \<rightharpoonup> int"
  sun_elevations :: "string \<rightharpoonup> real"
  oat_lines :: "string list option"
  spm_lines :: "string list option"
  image_stems :: "string list"

text \<open>
  \<open>run_minnaert_correction\<close> reads the section and its three constants, in this
  order, before the corrector is built and before \<open>run\<close> visits any scene. It compares
  none of them with anything.
\<close>

definition MinnaertCorrector ::
  "(string \<Rightarrow> real option) \<Rightarrow> project \<Rightarrow> real \<Rightarrow> real \<Rightarrow> real \<Rightarrow> corrector" where
  "MinnaertCorrector py_float p dark_current g k =
     (let oat = (case oat_lines p of Some ls \<Rightarrow> parse_oat py_float ls | None \<Rightarrow> ([], []));
          spm = (case spm_lines p of Some ls \<Rightarrow> parse_spm py_float ls | None \<Rightarrow> ([], []))
      in \<lparr>meta = start_times p, oat_times = fst oat, emis_vals = snd oat,
          spm_times = fst spm, sunel_vals = snd spm,
          dark = dark_current, gain = g, k_exponent = k\<rparr>)"

definition run_minnaert_correction ::
  "(string \<Rightarrow> real option) \<Rightarrow> project \<Rightarrow> config \<Rightarrow> py_error + run_log" where
  "run_minnaert_correction py_float p config =
     (case getitem config ''minnaert'' of
        Inl e \<Rightarrow> Inl e
      | Inr correction_config \<Rightarrow>
          (case getitem correction_config ''dark_current'' of
             Inl e \<Rightarrow> Inl e
           | Inr dark_current \<Rightarrow>
               (case getitem correction_config ''gain'' of
                  Inl e \<Rightarrow> Inl e
                | Inr g \<Rightarrow>
                    (case getitem correction_config ''k_exponent'' of
                       Inl e \<Rightarrow> Inl e
                     | Inr k \<Rightarrow>
                         Inr (run py_float (MinnaertCorrector py_float p dark_current g k) (crops p))))))"

text \<open>
  \<open>run_albedo_correction\<close> reads \<open>config["albedo"]["sigma"]\<close>, then opens the raster
  the Minnaert stage wrote for the stem (\<open>rasterio\<close> raises when there is none; the
  last raster written under a name is the file). Step 7 calls it for each stem; the
  first exception ends the run. The plots are not modelled.
\<close>

datatype pipeline_error = Py py_error | RasterioIOError string

definition run_albedo_correction ::
  "(real \<Rightarrow> real list list \<Rightarrow> real list list) \<Rightarrow> config \<Rightarrow> (string \<times> real list list) list \<Rightarrow> string \<Rightarrow>
   pipeline_error + string \<times> np_float list list" where
  "run_albedo_correction gaussian_filter config level1 image_stem =
     (case getitem config ''albedo'' of
        Inl e \<Rightarrow> Inl (Py e)
      | Inr albedo \<Rightarrow>
          (case getitem albedo ''sigma'' of
             Inl e \<Rightarrow> Inl (Py e)
           | Inr sigma \<Rightarrow>
               (case map_of (rev level1) (image_stem @ ''_if.tif'') of
                  None \<Rightarrow> Inl (RasterioIOError (image_stem @ ''_if.tif''))
                | Some arr \<Rightarrow>
                    Inr (image_stem @ ''_albnorm.tif'',
                         normalize_and_visualize (gaussian_filter sigma) (map (map Fin) arr)))))"

fun albedo_loop ::
  "(real \<Rightarrow> real list list \<Rightarrow> real list list) \<Rightarrow> config \<Rightarrow> (string \<times> real list list) list \<Rightarrow> string list \<Rightarrow>
   (string \<times> np_float list list) list \<Rightarrow> (string \<times> np_float list list) list \<times> pipeline_error option" where
  "albedo_loop gaussian_filter config level1 [] done = (done, None)"
| "albedo_loop gaussian_filter config level1 (stem # rest) done =
     (case run_albedo_correction gaussian_filter config level1 stem of
        Inl e \<Rightarrow> (done, Some e)
      | Inr w \<Rightarrow> albedo_loop gaussian_filter config level1 rest (done @ [w]))"

text \<open>\<open>s.replace(old, "")\<close>.\<close>

function remove_sub :: "string \<Rightarrow> string \<Rightarrow> string" where
  "remove_sub old s =
     (if s = [] \<or> old = [] then s
      else if take (length old) s = old then remove_sub old (drop (length old) s)
      else hd s # remove_sub old (tl s))"
  by pat_completeness auto
termination
  by (relation "measure (\<lambda>(old, s). length s)") auto

declare remove_sub.simps [simp del]

text \<open>
  \<open>run_shadow_detection\<close> reads the five constants of \<open>config["shadow"]\<close> in this
  order, then visits \<open>sorted(glob("*_albnorm.tif"))\<close>: the rasters step 7 wrote.
  \<open>morph_iters\<close> is a whole number in the file.
\<close>

definition shadow_config_of :: "config \<Rightarrow> py_error + shadow_config" where
  "shadow_config_of config =
     (case getitem config ''shadow'' of
        Inl e \<Rightarrow> Inl e
      | Inr sh \<Rightarrow>
          (case (getitem sh ''sun_el_threshold'', getitem sh ''abs_if_threshold'',
                 getitem sh ''threshold_factor'', getitem sh ''min_if_valid'',
                 getitem sh ''morph_iters'') of
             (Inl e, _) \<Rightarrow> Inl e
           | (_, Inl e, _) \<Rightarrow> Inl e
           | (_, _, Inl e, _) \<Rightarrow> Inl e
           | (_, _, _, Inl e, _) \<Rightarrow> Inl e
           | (_, _, _, _, Inl e) \<Rightarrow> Inl e
           | (Inr a, Inr b, Inr c, Inr d, Inr m) \<Rightarrow>
               Inr \<lparr>sun_el_threshold = a, abs_if_threshold = b, threshold_factor = c,
                    min_if_valid = d, morph_iters = \<lfloor>m\<rfloor>\<rparr>))"

definition run_shadow_detection ::
  "project \<Rightarrow> config \<Rightarrow> (string \<times> np_float list list) list \<Rightarrow>
   py_error + (string \<times> shadow_result) list" where
  "run_shadow_detection p config level1 =
     (case shadow_config_of config of
        Inl e \<Rightarrow> Inl e
      | Inr cfg \<Rightarrow>
          Inr (List.map_filter
                 (\<lambda>tif. case map_of (rev level1) tif of
                         None \<Rightarrow> None
                       | Some arr \<Rightarrow>
                           (let stem = remove_sub ''_albnorm'' (path_stem tif)
                            in Some (stem, shadow_scene cfg (sun_elevations p) stem arr)))
                 (sort (remdups (map fst level1)))))"

text \<open>
  \<open>run_pipeline\<close> from \<open>load_config\<close> to step 8, with what the stages have written
  when it ends and the exception that ended it, if any (\<open>except Exception: ... raise\<close>
  logs and re-raises).
\<close>

record pipeline_out =
  minnaert_log :: "run_log option"
  albnorm_written :: "(string \<times> np_float list list) list"
  coverage_log :: "(string \<times> shadow_result) list"

definition no_output :: pipeline_out where
  "no_output = \<lparr>minnaert_log = None, albnorm_written = [], coverage_log = []\<rparr>"

definition run_pipeline ::
  "(real \<Rightarrow> real list list \<Rightarrow> real list list) \<Rightarrow> (string \<Rightarrow> real option) \<Rightarrow> project \<Rightarrow>
   pipeline_out \<times> pipeline_error option" where
  "run_pipeline gaussian_filter py_float p =
     (case load_config (config_json p) of
        Inl e \<Rightarrow> (no_output, Some (Py e))
      | Inr config \<Rightarrow>
          (case run_minnaert_correction py_float p config of
             Inl e \<Rightarrow> (no_output, Some (Py e))
           | Inr lg \<Rightarrow>
               (let o1 = no_output\<lparr>minnaert_log := Some lg\<rparr>;
                    (alb, err) = albedo_loop gaussian_filter config (written_if lg) (image_stems p) [];
                    o2 = o1\<lparr>albnorm_written := alb\<rparr>
                in case err of
                     Some e \<Rightarrow> (o2, Some e)
                   | None \<Rightarrow>
                       (case run_shadow_detection p config alb of
                          Inl e \<Rightarrow> (o2, Some (Py e))
                        | Inr rows \<Rightarrow> (o2\<lparr>coverage_log := rows\<rparr>, None)))))"


lemma run_pipeline_no_config:
  "config_json p = None \<Longrightarrow>
   run_pipeline gaussian_filter py_float p = (no_output, Some (Py FileNotFoundError))"
  by (simp add: run_pipeline_def load_config_def)

lemma run_pipeline_minnaert_error:
  "config_json p = Some config \<Longrightarrow> run_minnaert_correction py_float p config = Inl e \<Longrightarrow>
   run_pipeline gaussian_filter py_float p = (no_output, Some (Py e))"
  by (simp add: run_pipeline_def load_config_def)

lemma run_pipeline_minnaert_log:
  "config_json p = Some config \<Longrightarrow> run_minnaert_correction py_float p config = Inr lg \<Longrightarrow>
   minnaert_log (fst (run_pipeline gaussian_filter py_float p)) = Some lg"
  by (simp add: run_pipeline_def load_config_def no_output_def Let_def
      split: prod.splits option.splits sum.splits)

lemma run_pipeline_albedo_error:
  "config_json p = Some config \<Longrightarrow> run_minnaert_correction py_float p config = Inr lg \<Longrightarrow>
   albedo_loop gaussian_filter config (written_if lg) (image_stems p) [] = (alb, Some e) \<Longrightarrow>
   snd (run_pipeline gaussian_filter py_float p) = Some e"
  by (simp add: run_pipeline_def load_config_def Let_def)

lemma run_pipeline_completes:
  "config_json p = Some config \<Longrightarrow> run_minnaert_correction py_float p config = Inr lg \<Longrightarrow>
   albedo_loop gaussian_filter config (written_if lg) (image_stems p) [] = (alb, None) \<Longrightarrow>
   shadow_config_of config = Inr cfg \<Longrightarrow>
   snd (run_pipeline gaussian_filter py_float p) = None"
  by (simp add: run_pipeline_def load_config_def run_shadow_detection_def Let_def)

lemma run_minnaert_correction_complete:
  "config ''minnaert'' = Some cc \<Longrightarrow> cc ''dark_current'' = Some d \<Longrightarrow> cc ''gain'' = Some g \<Longrightarrow>
   cc ''k_exponent'' = Some k \<Longrightarrow>
   run_minnaert_correction py_float p config =
     Inr (run py_float (MinnaertCorrector py_float p d g k) (crops p))"
  by (simp add: run_minnaert_correction_def getitem_def)

lemma albedo_loop_no_section:
  "config ''albedo'' = None \<Longrightarrow> stems \<noteq> [] \<Longrightarrow>
   albedo_loop gaussian_filter config level1 stems [] = ([], Some (Py (KeyError ''albedo'')))"
  by (cases stems) (simp_all add: run_albedo_correction_def getitem_def)

text \<open>
  Claim C5 (as the code has it). The code has no validation of the configuration and
  no \<open>InvalidConfiguration\<close> failure. A missing configuration file halts the run at
  the start with \<open>FileNotFoundError\<close>, and a missing \<open>minnaert\<close> section halts it with
  \<open>KeyError\<close>, in both cases before any scene is processed. When the \<open>minnaert\<close>
  section has its three constants, whatever their values (a negative gain included),
  the Minnaert stage processes the whole batch; a missing \<open>albedo\<close> section then halts
  the run with \<open>KeyError\<close> only after that.
\<close>

theorem config_errors_surface_at_use:
  "(config_json p = None \<longrightarrow>
      run_pipeline gaussian_filter py_float p = (no_output, Some (Py FileNotFoundError))) \<and>
   (\<forall>config. config_json p = Some config \<and> config ''minnaert'' = None \<longrightarrow>
      run_pipeline gaussian_filter py_float p = (no_output, Some (Py (KeyError ''minnaert'')))) \<and>
   (\<forall>config cc d g k.
      config_json p = Some config \<and> config ''minnaert'' = Some cc \<and>
      cc ''dark_current'' = Some d \<and> cc ''gain'' = Some g \<and> cc ''k_exponent'' = Some k \<longrightarrow>
        minnaert_log (fst (run_pipeline gaussian_filter py_float p)) =
          Some (run py_float (MinnaertCorrector py_float p d g k) (crops p)) \<and>
        (config ''albedo'' = None \<and> image_stems p \<noteq> [] \<longrightarrow>
           snd (run_pipeline gaussian_filter py_float p) = Some (Py (KeyError ''albedo''))))"
proof (intro conjI allI impI)
  assume "config_json p = None"
  then show "run_pipeline gaussian_filter py_float p = (no_output, Some (Py FileNotFoundError))"
    by (rule run_pipeline_no_config)
next
  fix config
  assume a: "config_json p = Some config \<and> config ''minnaert'' = None"
  then have "run_minnaert_correction py_float p config = Inl (KeyError ''minnaert'')"
    by (simp add: run_minnaert_correction_def getitem_def)
  then show "run_pipeline gaussian_filter py_float p = (no_output, Some (Py (KeyError ''minnaert'')))"
    using a run_pipeline_minnaert_error by blast
next
  fix config cc d g k
  assume a: "config_json p = Some config \<and> config ''minnaert'' = Some cc \<and>
      cc ''dark_current'' = Some d \<and> cc ''gain'' = Some g \<and> cc ''k_exponent'' = Some k"
  then have m: "run_minnaert_correction py_float p config =
     Inr (run py_float (MinnaertCorrector py_float p d g k) (crops p))"
    using run_minnaert_correction_complete by blast
  show "minnaert_log (fst (run_pipeline gaussian_filter py_float p)) =
          Some (run py_float (MinnaertCorrector py_float p d g k) (crops p))"
    using a m run_pipeline_minnaert_log by blast
  assume b: "config ''albedo'' = None \<and> image_stems p \<noteq> []"
  show "snd (run_pipeline gaussian_filter py_float p) = Some (Py (KeyError ''albedo''))"
    using a m albedo_loop_no_section [of config "image_stems p" gaussian_filter] b
      run_pipeline_albedo_error [of p config py_float _ gaussian_filter "[]" "Py (KeyError ''albedo'')"]
    by simp
qed

text \<open>
  A configuration with a negative gain and a zero sigma, and a project of one scene
  (a 1 by 1 raster of DN 0, below the dark current of 10) whose start time is known
  and whose label gives a solar incidence of 0.
\<close>

definition bad_config :: config where
  "bad_config =
     [''minnaert'' \<mapsto> [''dark_current'' \<mapsto> 10, ''gain'' \<mapsto> - (1 / 500), ''k_exponent'' \<mapsto> 1],
      ''albedo'' \<mapsto> [''sigma'' \<mapsto> 0],
      ''shadow'' \<mapsto> [''sun_el_threshold'' \<mapsto> 10, ''abs_if_threshold'' \<mapsto> 1 / 20,
                     ''threshold_factor'' \<mapsto> 1 / 2, ''min_if_valid'' \<mapsto> 1 / 20,
                     ''morph_iters'' \<mapsto> 1]]"

definition example_project :: "config option \<Rightarrow> project" where
  "example_project cfg =
     \<lparr>config_json = cfg,
      crops = \<lparr>tifs = [''b.tif''], read_tif = (\<lambda>t. Inr [[0]]),
               xml_of = (\<lambda>s. Some \<lparr>solar_incidence = Some ''0'', sun_elevation = None\<rparr>)\<rparr>,
      start_times = [''b'' \<mapsto> 0], sun_elevations = [''b'' \<mapsto> 60],
      oat_lines = None, spm_lines = None, image_stems = [''b'']\<rparr>"

lemma example_minnaert_run:
  "written_if (run float_plain
      (MinnaertCorrector float_plain (example_project cfg) 10 (- (1 / 500)) 1)
      (crops (example_project cfg))) = [(''b_if.tif'', [[1 / 50]])]"
proof -
  have f: "float_plain ''0'' = Some 0" by code_simp
  have "0 < max (cos (deg2rad 10)) (1 / 10 ^ 6)"
    by (simp add: less_max_iff_disj)
  then have m: "max (cos (deg2rad 10)) (1 / 10 ^ 6) \<noteq> 0" by simp
  show ?thesis
    using m
    by (simp add: run_def run_step_def process_one_def MinnaertCorrector_def resolve_angles_def
        fallback_angles_def path_stem_def example_project_def empty_log_def Let_def f
        deg2rad_def powr_zero_eq_one)
qed

lemma bad_config_minnaert:
  "run_minnaert_correction float_plain (example_project cfg) bad_config =
     Inr (run float_plain
       (MinnaertCorrector float_plain (example_project cfg) 10 (- (1 / 500)) 1)
       (crops (example_project cfg)))"
  by (rule run_minnaert_correction_complete
      [of _ "[''dark_current'' \<mapsto> 10, ''gain'' \<mapsto> - (1 / 500), ''k_exponent'' \<mapsto> 1]"])
     (simp_all add: bad_config_def)

lemma bad_config_albedo:
  "albedo_loop (\<lambda>sigma a. a) bad_config [(''b_if.tif'', [[1 / 50]])] [''b''] [] =
     ([(''b_albnorm.tif'', [[Fin (1 / 10)]])], None)"
  by (simp add: run_albedo_correction_def getitem_def bad_config_def
      normalize_and_visualize_def sanitize_def floor_trend_def np_mean_def)

lemma bad_config_shadow:
  "shadow_config_of bad_config =
     Inr \<lparr>sun_el_threshold = 10, abs_if_threshold = 1 / 20, threshold_factor = 1 / 2,
          min_if_valid = 1 / 20, morph_iters = 1\<rparr>"
  by (simp add: shadow_config_of_def getitem_def bad_config_def)

text \<open>
  Claim C5 as stated fails: with a negative gain and a zero sigma in the
  configuration the run does not halt. It ends without an exception, and the Minnaert
  stage has processed the scene: the radiance is (0 - 10) * (-0.002) = 0.02, and so is
  the reflectance (incidence 0, k = 1).
\<close>

theorem negative_gain_run_completes:
  "bad_config ''minnaert'' =
     Some [''dark_current'' \<mapsto> 10, ''gain'' \<mapsto> - (1 / 500), ''k_exponent'' \<mapsto> 1] \<and>
   snd (run_pipeline (\<lambda>sigma a. a) float_plain (example_project (Some bad_config))) = None \<and>
   map_option written_if
     (minnaert_log (fst (run_pipeline (\<lambda>sigma a. a) float_plain (example_project (Some bad_config))))) =
     Some [(''b_if.tif'', [[1 / 50]])]"
proof -
  have cj: "config_json (example_project (Some bad_config)) = Some bad_config"
    by (simp add: example_project_def)
  have st: "image_stems (example_project (Some bad_config)) = [''b'']"
    by (simp add: example_project_def)
  have al: "albedo_loop (\<lambda>sigma a. a) bad_config
      (written_if (run float_plain
        (MinnaertCorrector float_plain (example_project (Some bad_config)) 10 (- (1 / 500)) 1)
        (crops (example_project (Some bad_config)))))
      (image_stems (example_project (Some bad_config))) [] =
      ([(''b_albnorm.tif'', [[Fin (1 / 10)]])], None)"
    by (simp only: example_minnaert_run st bad_config_albedo)
  have a: "snd (run_pipeline (\<lambda>sigma a. a) float_plain (example_project (Some bad_config))) = None"
    by (rule run_pipeline_completes [OF cj bad_config_minnaert al bad_config_shadow])
  have b: "minnaert_log (fst (run_pipeline (\<lambda>sigma a. a) float_plain (example_project (Some bad_config)))) =
      Some (run float_plain
        (MinnaertCorrector float_plain (example_project (Some bad_config)) 10 (- (1 / 500)) 1)
        (crops (example_project (Some bad_config))))"
    by (rule run_pipeline_minnaert_log [OF cj bad_config_minnaert])
  have c: "bad_config ''minnaert'' =
     Some [''dark_current'' \<mapsto> 10, ''gain'' \<mapsto> - (1 / 500), ''k_exponent'' \<mapsto> 1]"
    by (simp add: bad_config_def)
  show ?thesis using a c by (simp add: b example_minnaert_run)
qed

theorem config_errors_surface_at_use_witness:
  "config_json (example_project None) = None \<and>
   run_pipeline (\<lambda>sigma a. a) float_plain (example_project None) =
     (no_output, Some (Py FileNotFoundError)) \<and>
   config_json (example_project (Some (bad_config(''albedo'' := None)))) =
     Some (bad_config(''albedo'' := None)) \<and>
   (bad_config(''albedo'' := None)) ''albedo'' = None \<and>
   image_stems (example_project (Some (bad_config(''albedo'' := None)))) \<noteq> [] \<and>
   snd (run_pipeline (\<lambda>sigma a. a) float_plain
          (example_project (Some (bad_config(''albedo'' := None))))) =
     Some (Py (KeyError ''albedo'')) \<and>
   map_option written_if (minnaert_log (fst (run_pipeline (\<lambda>sigma a. a) float_plain
          (example_project (Some (bad_config(''albedo'' := None))))))) =
     Some [(''b_if.tif'', [[1 / 50]])]"
proof -
  let ?c = "bad_config(''albedo'' := None)"
  let ?cc = "[''dark_current'' \<mapsto> 10, ''gain'' \<mapsto> - (1 / 500), ''k_exponent'' \<mapsto> (1 :: real)]"
  have h1: "config_json (example_project None) = None" by (simp add: example_project_def)
  have h2: "config_json (example_project (Some ?c)) = Some ?c \<and> ?c ''minnaert'' = Some ?cc \<and>
      ?cc ''dark_current'' = Some 10 \<and> ?cc ''gain'' = Some (- (1 / 500)) \<and>
      ?cc ''k_exponent'' = Some 1"
    by (simp add: example_project_def bad_config_def)
  have h3: "?c ''albedo'' = None \<and> image_stems (example_project (Some ?c)) \<noteq> []"
    by (simp add: example_project_def)
  note T = config_errors_surface_at_use [of "example_project None" "\<lambda>sigma a. a" float_plain]
  note U = config_errors_surface_at_use [of "example_project (Some ?c)" "\<lambda>sigma a. a" float_plain]
  have r1: "run_pipeline (\<lambda>sigma a. a) float_plain (example_project None) =
     (no_output, Some (Py FileNotFoundError))"
    using T h1 by blast
  have r2: "minnaert_log (fst (run_pipeline (\<lambda>sigma a. a) float_plain (example_project (Some ?c)))) =
      Some (run float_plain (MinnaertCorrector float_plain (example_project (Some ?c)) 10 (- (1 / 500)) 1)
        (crops (example_project (Some ?c)))) \<and>
      snd (run_pipeline (\<lambda>sigma a. a) float_plain (example_project (Some ?c))) =
        Some (Py (KeyError ''albedo''))"
    using U h2 h3 by blast
  show ?thesis using h1 h2 h3 r1 r2 by (simp add: example_minnaert_run)
qed

end
